theory Spec2Isabelle
  imports Complex_Main "HOL-Library.Multiset" "HOL-Library.List_Lexorder"
begin

section \<open>Python values seen by the integrity checker\<close>

text \<open>
  An exception (an instance of \<^verbatim>\<open>Exception\<close>, which is what the handlers catch) is
  its type name (\<^verbatim>\<open>type(e).__name__\<close>) and its message (\<^verbatim>\<open>str(e)\<close>): the
  checker looks at nothing else.
\<close>

datatype pyexn = PyExn (exn_type: string) (exn_msg: string)

text \<open>
  A string is a sequence of code points below 256.

  Reading an attribute of a Python object: the attribute is missing (\<^verbatim>\<open>hasattr\<close> is
  false, and a direct read raises an \<^verbatim>\<open>AttributeError\<close> whose message is the one
  given with \<open>Absent\<close>), reading it raises another exception (a property), or it has a
  value. Reading the same attribute twice gives the same outcome.
\<close>

datatype 'a attr = Absent string | Raises pyexn | Present 'a

definition hasattr :: "'a attr \<Rightarrow> pyexn + bool" where
  "hasattr a = (case a of Absent _ \<Rightarrow> Inr False | Raises e \<Rightarrow> Inl e | Present _ \<Rightarrow> Inr True)"

definition getattr :: "'a attr \<Rightarrow> pyexn + 'a" where
  "getattr a =
     (case a of
        Absent msg \<Rightarrow> Inl (PyExn ''AttributeError'' msg)
      | Raises e \<Rightarrow> Inl e
      | Present v \<Rightarrow> Inr v)"

section \<open>Chunk coordinates: enumeration\<close>

definition zero_division :: pyexn where
  "zero_division = PyExn ''ZeroDivisionError'' ''integer division or modulo by zero''"

definition py_range :: "int \<Rightarrow> int list" where
  "py_range n = map int [0..<nat n]"

text \<open>
  The loop over \<^verbatim>\<open>zip(shape, chunks)\<close>: per dimension
  \<^verbatim>\<open>(dim_size + chunk_size - 1) // chunk_size\<close> chunks; a chunk size of zero
  raises.
\<close>

fun chunk_indices :: "(int \<times> int) list \<Rightarrow> pyexn + int list list" where
  "chunk_indices [] = Inr []"
| "chunk_indices ((dim_size, chunk_size) # rest) =
     (if chunk_size = 0 then Inl zero_division
      else (case chunk_indices rest of
              Inl e \<Rightarrow> Inl e
            | Inr r \<Rightarrow> Inr (py_range ((dim_size + chunk_size - 1) div chunk_size) # r)))"

text \<open>\<^verbatim>\<open>itertools.product(*lists)\<close>: the last position varies fastest.\<close>

fun itertools_product :: "'a list list \<Rightarrow> 'a list list" where
  "itertools_product [] = [[]]"
| "itertools_product (xs # xss) =
     concat (map (\<lambda>x. map ((#) x) (itertools_product xss)) xs)"

definition all_chunk_coords :: "int list \<Rightarrow> int list \<Rightarrow> pyexn + int list list" where
  "all_chunk_coords shape chunks =
     (case chunk_indices (zip shape chunks) of
        Inl e \<Rightarrow> Inl e
      | Inr idx \<Rightarrow> Inr (itertools_product idx))"

section \<open>Chunk coordinates: selection\<close>

text \<open>
  \<^verbatim>\<open>random.sample(population, k)\<close> of the standard library, by its pool
  algorithm: the \<open>i\<close>-th draw \<^verbatim>\<open>randbelow(n - i)\<close> picks a position of the
  pool, whose element is then overwritten by the pool's last live element. The random
  source is the parameter \<open>rnd\<close>; the draw is reduced into its range. Every outcome of
  \<^verbatim>\<open>random.sample\<close> (k elements at pairwise different positions) is the
  outcome of this function for some \<open>rnd\<close>. The library raises when \<open>k\<close> exceeds the
  size of the population; the checker asks for at most \<^verbatim>\<open>len(all_chunk_coords) - 2\<close>
  of the interior, so the empty-pool case is not reached from it.
\<close>

fun random_sample :: "'a list \<Rightarrow> nat \<Rightarrow> (nat \<Rightarrow> nat) \<Rightarrow> nat \<Rightarrow> 'a list" where
  "random_sample pool 0 rnd i = []"
| "random_sample pool (Suc k) rnd i =
     (if pool = [] then []
      else (let j = rnd i mod length pool
            in pool ! j # random_sample (butlast (pool[j := last pool])) k rnd (Suc i)))"

text \<open>The slice \<^verbatim>\<open>xs[:m]\<close>; a negative \<open>m\<close> counts from the end.\<close>

definition py_take :: "int \<Rightarrow> 'a list \<Rightarrow> 'a list" where
  "py_take m xs = (if m < 0 then take (nat (int (length xs) + m)) xs else take (nat m) xs)"

definition chunks_to_check ::
  "'a list \<Rightarrow> bool \<Rightarrow> int option \<Rightarrow> (nat \<Rightarrow> nat) \<Rightarrow> 'a list" where
  "chunks_to_check coords sample_chunks max_chunks_to_check rnd =
     (let sel =
        (if sample_chunks \<and> length coords > 10 then
           [hd coords, last coords] @
           (if length coords > 2
            then random_sample (butlast (tl coords)) (min 8 (length coords - 2)) rnd 0
            else [])
         else coords)
      in (case max_chunks_to_check of None \<Rightarrow> sel | Some m \<Rightarrow> py_take m sel))"

text \<open>A random source whose every draw is 0, for evaluating the selection.\<close>

definition rnd_zero :: "nat \<Rightarrow> nat" where
  "rnd_zero i = 0"

section \<open>Results of a check\<close>

text \<open>
  The \<^verbatim>\<open>chunk_index\<close> of a \<^verbatim>\<open>ChunkError\<close> is a tuple: a chunk coordinate
  (the empty tuple when no coordinate applies) or the one-element tuple holding the name
  of a resolution level.
\<close>

datatype chunk_index = Coord "int list" | LevelName string

record ChunkError =
  chunk_index :: chunk_index
  error_type :: string
  error_message :: string
  array_path :: "string option"

record ElementResult =
  element_type :: string
  element_name :: string
  is_valid :: bool
  chunks_checked :: nat
  errors :: "ChunkError list"
  warning :: "string option"

record IntegrityResult =
  ir_path :: "string option"
  ir_is_valid :: bool
  ir_elements :: "ElementResult list"
  ir_errors :: "string list"

section \<open>Classifying a failed read by its message\<close>

text \<open>
  \<^verbatim>\<open>str.lower()\<close> on code points below 256: the letters A to Z, and the capital
  letters from 0xC0 to 0xDE without the multiplication sign 0xD7, move up by 32.
\<close>

definition lower_char :: "char \<Rightarrow> char" where
  "lower_char c =
     (let n = (of_char c :: nat)
      in if (65 \<le> n \<and> n \<le> 90) \<or> (192 \<le> n \<and> n \<le> 222 \<and> n \<noteq> 215)
         then char_of (n + 32) else c)"

definition lower :: "string \<Rightarrow> string" where
  "lower s = map lower_char s"

fun starts_with :: "string \<Rightarrow> string \<Rightarrow> bool" where
  "starts_with [] s = True"
| "starts_with (p # ps) [] = False"
| "starts_with (p # ps) (c # cs) = (p = c \<and> starts_with ps cs)"

text \<open>The substring test \<^verbatim>\<open>sub in s\<close>.\<close>

fun py_in :: "string \<Rightarrow> string \<Rightarrow> bool" where
  "py_in sub [] = (sub = [])"
| "py_in sub (c # cs) = (starts_with sub (c # cs) \<or> py_in sub cs)"

text \<open>
  The handler of the chunk loop and of the fallback probe of a resolution level:
  \<^verbatim>\<open>"blosc" in error_message.lower() or "decompression" in error_message.lower()\<close>.
\<close>

definition classify_chunk_error :: "pyexn \<Rightarrow> string" where
  "classify_chunk_error e =
     (if py_in ''blosc'' (lower (exn_msg e)) \<or> py_in ''decompression'' (lower (exn_msg e))
      then ''BloscDecompressionError'' else exn_type e)"

text \<open>
  The handler of the direct probe of an array-like \<^verbatim>\<open>data\<close>:
  \<^verbatim>\<open>"blosc" in error_message.lower()\<close> only.
\<close>

definition classify_direct_error :: "pyexn \<Rightarrow> string" where
  "classify_direct_error e =
     (if py_in ''blosc'' (lower (exn_msg e)) then ''BloscDecompressionError'' else exn_type e)"

section \<open>Checking one zarr array\<close>

text \<open>
  A subscript is a tuple of slices \<^verbatim>\<open>slice(start, end)\<close> and integer indices.
\<close>

datatype index = Slice int int | Idx int

text \<open>
  What \<^verbatim>\<open>check_zarr_array\<close> uses of a \<^verbatim>\<open>zarr.Array\<close>: its \<^verbatim>\<open>shape\<close>, its
  \<^verbatim>\<open>chunks\<close> (which may be \<^verbatim>\<open>None\<close>) and the subscript \<^verbatim>\<open>array[...]\<close>,
  which succeeds (\<open>None\<close>) or raises; the outcome of a read is a function of the
  subscript.
\<close>

record zarr_array =
  za_shape :: "int list attr"
  za_chunks :: "int list option attr"
  za_getitem :: "index list \<Rightarrow> pyexn option"

text \<open>
  The variables the function updates while it runs: \<^verbatim>\<open>chunks_checked\<close>,
  \<^verbatim>\<open>errors\<close>, and the subscripts issued to the array so far, in order.
\<close>

record scan =
  reads :: "index list list"
  checked :: nat
  errs :: "ChunkError list"

definition empty_scan :: scan where
  "empty_scan = \<lparr>reads = [], checked = 0, errs = []\<rparr>"

text \<open>The probe of an array without a chunk grid: \<^verbatim>\<open>min(10, s)\<close> for every \<open>s\<close> of the shape.\<close>

definition sample_slices :: "int list \<Rightarrow> index list" where
  "sample_slices shape = map (\<lambda>s. Slice 0 s) (map (\<lambda>s. min 10 s) shape)"

definition probe_unchunked :: "zarr_array \<Rightarrow> int list \<Rightarrow> string option \<Rightarrow> scan" where
  "probe_unchunked array shape path =
     (case za_getitem array (sample_slices shape) of
        None \<Rightarrow> \<lparr>reads = [sample_slices shape], checked = 1, errs = []\<rparr>
      | Some e \<Rightarrow>
          \<lparr>reads = [sample_slices shape], checked = 1,
           errs = [\<lparr>chunk_index = Coord (replicate (length shape) 0), error_type = exn_type e,
                    error_message = exn_msg e, array_path = path\<rparr>]\<rparr>)"

text \<open>The slice of one chunk: \<^verbatim>\<open>start = coord * chunk_size\<close>, the end clamped to the dimension.\<close>

definition chunk_slices :: "int list \<Rightarrow> int list \<Rightarrow> int list \<Rightarrow> index list" where
  "chunk_slices chunk_coords shape chunks =
     map (\<lambda>(coord, dim_size, chunk_size).
            Slice (coord * chunk_size) (min (coord * chunk_size + chunk_size) dim_size))
         (zip chunk_coords (zip shape chunks))"

definition chunk_read_error :: "int list \<Rightarrow> pyexn \<Rightarrow> string option \<Rightarrow> ChunkError" where
  "chunk_read_error chunk_coords e path =
     \<lparr>chunk_index = Coord chunk_coords, error_type = classify_chunk_error e,
      error_message = exn_msg e, array_path = path\<rparr>"

text \<open>The loop over \<^verbatim>\<open>chunks_to_check\<close>; each read has its own handler.\<close>

fun check_chunks ::
  "zarr_array \<Rightarrow> int list \<Rightarrow> int list \<Rightarrow> string option \<Rightarrow> int list list \<Rightarrow> scan \<Rightarrow> scan" where
  "check_chunks array shape chunks path [] st = st"
| "check_chunks array shape chunks path (chunk_coords # rest) st =
     (let slices = chunk_slices chunk_coords shape chunks
      in (case za_getitem array slices of
            None \<Rightarrow>
              check_chunks array shape chunks path rest
                (st\<lparr>reads := reads st @ [slices], checked := checked st + 1\<rparr>)
          | Some e \<Rightarrow>
              check_chunks array shape chunks path rest
                (st\<lparr>reads := reads st @ [slices], checked := checked st + 1,
                    errs := errs st @ [chunk_read_error chunk_coords e path]\<rparr>)))"

text \<open>
  The body of the outer \<^verbatim>\<open>try\<close>: the state it leaves, and the exception that
  reaches the outer handler, if any.
\<close>

definition check_zarr_array_body ::
  "zarr_array \<Rightarrow> bool \<Rightarrow> int option \<Rightarrow> string option \<Rightarrow> (nat \<Rightarrow> nat) \<Rightarrow> scan \<times> pyexn option" where
  "check_zarr_array_body array sample_chunks max_chunks_to_check path rnd =
     (case getattr (za_shape array) of
        Inl e \<Rightarrow> (empty_scan, Some e)
      | Inr shape \<Rightarrow>
          (case getattr (za_chunks array) of
             Inl e \<Rightarrow> (empty_scan, Some e)
           | Inr None \<Rightarrow> (probe_unchunked array shape path, None)
           | Inr (Some chunks) \<Rightarrow>
               (case all_chunk_coords shape chunks of
                  Inl e \<Rightarrow> (empty_scan, Some e)
                | Inr coords \<Rightarrow>
                    (check_chunks array shape chunks path
                       (chunks_to_check coords sample_chunks max_chunks_to_check rnd)
                       empty_scan, None))))"

definition metadata_error :: "pyexn \<Rightarrow> string option \<Rightarrow> ChunkError" where
  "metadata_error e path =
     \<lparr>chunk_index = Coord [], error_type = exn_type e, error_message = exn_msg e,
      array_path = path\<rparr>"

definition outer_errors :: "scan \<times> pyexn option \<Rightarrow> string option \<Rightarrow> ChunkError list" where
  "outer_errors r path =
     (case snd r of None \<Rightarrow> errs (fst r) | Some e \<Rightarrow> errs (fst r) @ [metadata_error e path])"

text \<open>\<^verbatim>\<open>array_path or "unknown"\<close>.\<close>

definition path_or_unknown :: "string option \<Rightarrow> string" where
  "path_or_unknown path =
     (case path of None \<Rightarrow> ''unknown'' | Some p \<Rightarrow> if p = [] then ''unknown'' else p)"

definition check_zarr_array ::
  "zarr_array \<Rightarrow> bool \<Rightarrow> int option \<Rightarrow> string option \<Rightarrow> (nat \<Rightarrow> nat) \<Rightarrow> ElementResult" where
  "check_zarr_array array sample_chunks max_chunks_to_check path rnd =
     (let r = check_zarr_array_body array sample_chunks max_chunks_to_check path rnd;
          es = outer_errors r path
      in \<lparr>element_type = ''array'', element_name = path_or_unknown path,
          is_valid = (length es = 0), chunks_checked = checked (fst r),
          errors = es, warning = None\<rparr>)"

text \<open>The subscripts \<^verbatim>\<open>check_zarr_array\<close> issues to the array, in order.\<close>

definition zarr_array_reads ::
  "zarr_array \<Rightarrow> bool \<Rightarrow> int option \<Rightarrow> string option \<Rightarrow> (nat \<Rightarrow> nat) \<Rightarrow> index list list" where
  "zarr_array_reads array sample_chunks max_chunks_to_check path rnd =
     reads (fst (check_zarr_array_body array sample_chunks max_chunks_to_check path rnd))"

section \<open>Checking one element\<close>

text \<open>The decimal digits of a natural number, for \<^verbatim>\<open>f"scale_{i}"\<close>.\<close>

function str_of_nat :: "nat \<Rightarrow> string" where
  "str_of_nat n =
     (if n < 10 then [char_of (48 + n)] else str_of_nat (n div 10) @ [char_of (48 + n mod 10)])"
  by pat_completeness auto
termination
  by (relation "measure id") auto

text \<open>
  A resolution level (\<^verbatim>\<open>scale_data\<close>): \<^verbatim>\<open>scale_data.store\<close> and its
  \<^verbatim>\<open>array\<close> (which may be \<^verbatim>\<open>None\<close>), \<^verbatim>\<open>scale_data.shape\<close>, whether it has
  \<^verbatim>\<open>__getitem__\<close>, and the outcome of a subscript together with
  \<^verbatim>\<open>compute()\<close> on its result when that exists (\<open>None\<close>: nothing raised).
\<close>

record level =
  lv_store :: "zarr_array option attr attr"
  lv_shape :: "int list attr"
  lv_has_getitem :: bool
  lv_getitem :: "index list \<Rightarrow> pyexn option"

text \<open>An entry of \<^verbatim>\<open>scale_levels\<close>: a \<^verbatim>\<open>(name, data)\<close> tuple or the data alone.\<close>

datatype scale_item = Named string level | Unnamed level

text \<open>
  The \<^verbatim>\<open>data\<close> of an image or labels element: the results of \<^verbatim>\<open>values()\<close>,
  \<^verbatim>\<open>items()\<close> and iteration (each may be missing, or raise when called), and the
  attributes of an array. The subscript is the read of \<^verbatim>\<open>check_zarr_array\<close> when
  \<^verbatim>\<open>data\<close> has \<^verbatim>\<open>chunks\<close>; otherwise it is the subscript of the direct probe
  together with \<^verbatim>\<open>compute()\<close> on its result when that exists.
\<close>

record data_obj =
  d_values :: "(pyexn + scale_item list) attr"
  d_items :: "(pyexn + scale_item list) attr"
  d_iter :: "(pyexn + scale_item list) attr"
  d_chunks :: "int list option attr"
  d_shape :: "int list attr"
  d_getitem :: "index list \<Rightarrow> pyexn option"

text \<open>
  What the checker uses of an element: \<^verbatim>\<open>data\<close> (images, labels);
  \<^verbatim>\<open>compute\<close> and \<^verbatim>\<open>head(10)\<close>, whose result may itself have a
  \<^verbatim>\<open>compute()\<close> (points); \<^verbatim>\<open>len(element)\<close> (shapes); \<^verbatim>\<open>shape\<close> and
  \<^verbatim>\<open>X\<close> (tables).
\<close>

record element =
  el_data :: "data_obj attr"
  el_compute :: "unit attr"
  el_head :: "pyexn + pyexn option attr"
  el_len :: "pyexn option"
  el_shape :: "pyexn option"
  el_X :: "pyexn option"

definition first_two_slices :: "int list \<Rightarrow> index list" where
  "first_two_slices shape = map (\<lambda>s. Slice 0 (min 10 s)) (take 2 shape)"

definition index_error :: pyexn where
  "index_error = PyExn ''IndexError'' ''tuple index out of range''"

text \<open>Lines 278 to 286: the zarr array behind a level, if it can be had.\<close>

definition level_zarr_array :: "level \<Rightarrow> pyexn + zarr_array option" where
  "level_zarr_array scale_data =
     (case hasattr (lv_store scale_data) of
        Inl e \<Rightarrow> Inl e
      | Inr False \<Rightarrow> Inr None
      | Inr True \<Rightarrow>
          (case lv_store scale_data of
             Present (Present z) \<Rightarrow> Inr z
           | _ \<Rightarrow> Inr None))"

text \<open>Line 289: \<^verbatim>\<open>zarr_array is not None and hasattr(zarr_array, "chunks")\<close>.\<close>

definition usable_zarr_array :: "zarr_array option \<Rightarrow> pyexn + zarr_array option" where
  "usable_zarr_array z =
     (case z of
        None \<Rightarrow> Inr None
      | Some za \<Rightarrow>
          (case hasattr (za_chunks za) of
             Inl e \<Rightarrow> Inl e
           | Inr True \<Rightarrow> Inr (Some za)
           | Inr False \<Rightarrow> Inr None))"

text \<open>Lines 298 to 326: the fallback probe of a level; the exception it raises, if any.\<close>

definition level_probe :: "level \<Rightarrow> pyexn option" where
  "level_probe scale_data =
     (case hasattr (lv_shape scale_data) of
        Inl e \<Rightarrow> Some e
      | Inr True \<Rightarrow>
          (case lv_shape scale_data of
             Present shape \<Rightarrow>
               (if length shape \<ge> 2 then
                  lv_getitem scale_data
                    (first_two_slices shape @
                     (if length shape > 2 then replicate (length shape - 2) (Idx 0) else []))
                else
                  (case shape of
                     [] \<Rightarrow> Some index_error
                   | s0 # _ \<Rightarrow> if s0 > 0 then lv_getitem scale_data [Idx 0] else None))
           | _ \<Rightarrow> None)
      | Inr False \<Rightarrow>
          (if lv_has_getitem scale_data then lv_getitem scale_data [Idx 0] else None))"

definition level_error :: "string \<Rightarrow> pyexn \<Rightarrow> string \<Rightarrow> ChunkError" where
  "level_error scale_name e path =
     \<lparr>chunk_index = LevelName scale_name, error_type = classify_chunk_error e,
      error_message = exn_msg e, array_path = Some path\<rparr>"

text \<open>
  The loop over \<^verbatim>\<open>enumerate(scale_levels)\<close>, on \<^verbatim>\<open>chunks_checked\<close> and
  \<^verbatim>\<open>errors\<close>; an exception outside the handlers of the loop body ends it. Every call
  of \<^verbatim>\<open>check_zarr_array\<close> has its own random source.
\<close>

fun check_levels ::
  "string \<Rightarrow> (nat \<Rightarrow> nat \<Rightarrow> nat) \<Rightarrow> nat \<Rightarrow> scale_item list \<Rightarrow> nat \<times> ChunkError list
     \<Rightarrow> (nat \<times> ChunkError list) \<times> pyexn option" where
  "check_levels el_name rnds i [] acc = (acc, None)"
| "check_levels el_name rnds i (scale_item # rest) acc =
     (let scale_name = (case scale_item of Named n _ \<Rightarrow> n | Unnamed _ \<Rightarrow> ''scale_'' @ str_of_nat i);
          scale_data = (case scale_item of Named _ d \<Rightarrow> d | Unnamed d \<Rightarrow> d);
          path = el_name @ ''/'' @ scale_name
      in (case level_zarr_array scale_data of
            Inl e \<Rightarrow> (acc, Some e)
          | Inr z \<Rightarrow>
              (case usable_zarr_array z of
                 Inl e \<Rightarrow> (acc, Some e)
               | Inr (Some za) \<Rightarrow>
                   (let result = check_zarr_array za True None (Some path) (rnds i)
                    in check_levels el_name rnds (Suc i) rest
                         (fst acc + chunks_checked result, snd acc @ errors result))
               | Inr None \<Rightarrow>
                   (case level_probe scale_data of
                      None \<Rightarrow> check_levels el_name rnds (Suc i) rest (fst acc + 1, snd acc)
                    | Some e \<Rightarrow>
                        check_levels el_name rnds (Suc i) rest
                          (fst acc + 1, snd acc @ [level_error scale_name e path])))))"

text \<open>Lines 248 to 266: \<^verbatim>\<open>scale_levels\<close>, \<open>None\<close> when it stays \<^verbatim>\<open>None\<close>.\<close>

definition called :: "(pyexn + scale_item list) attr \<Rightarrow> scale_item list option" where
  "called a = (case a of Present (Inr ls) \<Rightarrow> Some ls | _ \<Rightarrow> None)"

definition scale_levels :: "data_obj \<Rightarrow> pyexn + scale_item list option" where
  "scale_levels data =
     (case hasattr (d_values data) of
        Inl e \<Rightarrow> Inl e
      | Inr True \<Rightarrow> Inr (called (d_values data))
      | Inr False \<Rightarrow>
          (case hasattr (d_items data) of
             Inl e \<Rightarrow> Inl e
           | Inr True \<Rightarrow> Inr (called (d_items data))
           | Inr False \<Rightarrow>
               (case hasattr (d_iter data) of
                  Inl e \<Rightarrow> Inl e
                | Inr True \<Rightarrow> Inr (called (d_iter data))
                | Inr False \<Rightarrow> Inr None)))"

text \<open>Lines 348 to 361: the direct probe of an array-like \<^verbatim>\<open>data\<close>.\<close>

datatype probe_outcome = Probed | Failed pyexn | NoShape

definition direct_probe :: "data_obj \<Rightarrow> probe_outcome" where
  "direct_probe data =
     (case hasattr (d_shape data) of
        Inl e \<Rightarrow> Failed e
      | Inr False \<Rightarrow> NoShape
      | Inr True \<Rightarrow>
          (case d_shape data of
             Present shape \<Rightarrow>
               (if length shape \<ge> 2 then
                  (case d_getitem data (first_two_slices shape) of
                     None \<Rightarrow> Probed | Some e \<Rightarrow> Failed e)
                else
                  (case shape of
                     [] \<Rightarrow> Failed index_error
                   | s0 # _ \<Rightarrow>
                       if s0 > 0
                       then (case d_getitem data [Idx 0] of None \<Rightarrow> Probed | Some e \<Rightarrow> Failed e)
                       else Probed))
           | _ \<Rightarrow> Probed))"

definition direct_error :: "pyexn \<Rightarrow> string \<Rightarrow> ChunkError" where
  "direct_error e el_name =
     \<lparr>chunk_index = Coord [], error_type = classify_direct_error e,
      error_message = exn_msg e, array_path = Some el_name\<rparr>"

definition data_as_array :: "data_obj \<Rightarrow> zarr_array" where
  "data_as_array data =
     \<lparr>za_shape = d_shape data, za_chunks = d_chunks data, za_getitem = d_getitem data\<rparr>"

text \<open>
  The branch for images and labels: \<^verbatim>\<open>chunks_checked\<close> and \<^verbatim>\<open>errors\<close>, the
  \<^verbatim>\<open>warning\<close>, and the exception that reaches the outer handler, if any.
\<close>

definition check_image_element ::
  "element \<Rightarrow> string \<Rightarrow> (nat \<Rightarrow> nat \<Rightarrow> nat)
     \<Rightarrow> (nat \<times> ChunkError list) \<times> string option \<times> pyexn option" where
  "check_image_element el el_name rnds =
     (case hasattr (el_data el) of
        Inl e \<Rightarrow> ((0, []), None, Some e)
      | Inr False \<Rightarrow> ((0, []), Some ''Element has no 'data' attribute'', None)
      | Inr True \<Rightarrow>
          (case el_data el of
             Present data \<Rightarrow>
               (case scale_levels data of
                  Inl e \<Rightarrow> ((0, []), None, Some e)
                | Inr sl \<Rightarrow>
                    (if sl \<noteq> None \<and> sl \<noteq> Some [] then
                       (let r = check_levels el_name rnds 0 (the sl) (0, [])
                        in (fst r, None, snd r))
                     else
                       (case hasattr (d_chunks data) of
                          Inl e \<Rightarrow> ((0, []), None, Some e)
                        | Inr True \<Rightarrow>
                            (let result = check_zarr_array (data_as_array data) True None
                                            (Some el_name) (rnds 0)
                             in ((chunks_checked result, errors result), None, None))
                        | Inr False \<Rightarrow>
                            (case direct_probe data of
                               Probed \<Rightarrow> ((1, []), None, None)
                             | Failed e \<Rightarrow> ((1, [direct_error e el_name]), None, None)
                             | NoShape \<Rightarrow>
                                 ((0, []),
                                  Some ''Could not determine array structure - no shape attribute'',
                                  None)))))
           | _ \<Rightarrow> ((0, []), None, None)))"

text \<open>Lines 382 to 391: the probe of a points element; the exception it raises, if any.\<close>

definition points_probe :: "element \<Rightarrow> pyexn option" where
  "points_probe el =
     (case hasattr (el_compute el) of
        Inl e \<Rightarrow> Some e
      | Inr True \<Rightarrow>
          (case el_head el of
             Inl e \<Rightarrow> Some e
           | Inr sample \<Rightarrow>
               (case sample of Absent _ \<Rightarrow> None | Raises e \<Rightarrow> Some e | Present r \<Rightarrow> r))
      | Inr False \<Rightarrow> (case el_head el of Inl e \<Rightarrow> Some e | Inr _ \<Rightarrow> None))"

text \<open>Lines 426 to 430: \<^verbatim>\<open>element.shape\<close>, then \<^verbatim>\<open>element.X\<close>.\<close>

definition tables_probe :: "element \<Rightarrow> pyexn option" where
  "tables_probe el = (case el_shape el of Some e \<Rightarrow> Some e | None \<Rightarrow> el_X el)"

text \<open>The handlers of the points, shapes and tables probes record the exception as it is.\<close>

definition probe_error :: "pyexn \<Rightarrow> string \<Rightarrow> ChunkError" where
  "probe_error e el_name =
     \<lparr>chunk_index = Coord [], error_type = exn_type e, error_message = exn_msg e,
      array_path = Some el_name\<rparr>"

definition probe_tally :: "pyexn option \<Rightarrow> string \<Rightarrow> nat \<times> ChunkError list" where
  "probe_tally p el_name = (case p of None \<Rightarrow> (1, []) | Some e \<Rightarrow> (1, [probe_error e el_name]))"

definition check_spatialdata_element_body ::
  "element \<Rightarrow> string \<Rightarrow> string \<Rightarrow> (nat \<Rightarrow> nat \<Rightarrow> nat)
     \<Rightarrow> (nat \<times> ChunkError list) \<times> string option \<times> pyexn option" where
  "check_spatialdata_element_body el el_type el_name rnds =
     (if el_type = ''images'' \<or> el_type = ''labels'' then check_image_element el el_name rnds
      else if el_type = ''points'' then (probe_tally (points_probe el) el_name, None, None)
      else if el_type = ''shapes'' then (probe_tally (el_len el) el_name, None, None)
      else if el_type = ''tables'' then (probe_tally (tables_probe el) el_name, None, None)
      else ((0, []), None, None))"

text \<open>
  \<^verbatim>\<open>check_spatialdata_element\<close>; its parameter \<^verbatim>\<open>verbose\<close> is not used by
  the source.
\<close>

definition check_spatialdata_element ::
  "element \<Rightarrow> string \<Rightarrow> string \<Rightarrow> (nat \<Rightarrow> nat \<Rightarrow> nat) \<Rightarrow> ElementResult" where
  "check_spatialdata_element el el_type el_name rnds =
     (let r = check_spatialdata_element_body el el_type el_name rnds;
          es = (case snd (snd r) of
                  None \<Rightarrow> snd (fst r)
                | Some e \<Rightarrow> snd (fst r) @ [metadata_error e (Some el_name)])
      in \<lparr>element_type = el_type, element_name = el_name, is_valid = (length es = 0),
          chunks_checked = fst (fst r), errors = es, warning = fst (snd r)\<rparr>)"

section \<open>Checking a container\<close>

text \<open>
  The value of \<^verbatim>\<open>getattr(sdata, element_type)\<close>: \<^verbatim>\<open>None\<close>, a dict of named
  elements (in iteration order), or a single element.
\<close>

datatype elements_val = NoneVal | DictVal "(string \<times> element) list" | SingleVal element

type_synonym container = "string \<Rightarrow> elements_val attr"

datatype sdata_arg = Location string | Loaded container

text \<open>
  The loop over the dict of one element type. \<^verbatim>\<open>check_spatialdata_element\<close> returns
  in every case, so the handler around its call never runs and \<^verbatim>\<open>all_errors\<close>
  stays empty.
\<close>

definition check_dict ::
  "string \<Rightarrow> (string \<times> element) list \<Rightarrow> (string \<Rightarrow> string \<Rightarrow> nat \<Rightarrow> nat \<Rightarrow> nat)
     \<Rightarrow> ElementResult list" where
  "check_dict el_type elements rnds =
     map (\<lambda>(el_name, el). check_spatialdata_element el el_type el_name (rnds el_type el_name))
       elements"

text \<open>
  The loop over \<^verbatim>\<open>element_types\<close>; \<^verbatim>\<open>hasattr\<close> on the container is not
  inside a handler.
\<close>

fun check_types ::
  "container \<Rightarrow> string list \<Rightarrow> (string \<Rightarrow> string \<Rightarrow> nat \<Rightarrow> nat \<Rightarrow> nat)
     \<Rightarrow> pyexn + ElementResult list" where
  "check_types sdata [] rnds = Inr []"
| "check_types sdata (el_type # rest) rnds =
     (case hasattr (sdata el_type) of
        Inl e \<Rightarrow> Inl e
      | Inr False \<Rightarrow> check_types sdata rest rnds
      | Inr True \<Rightarrow>
          (let here =
             (case sdata el_type of
                Present (DictVal elements) \<Rightarrow> check_dict el_type elements rnds
              | Present (SingleVal el) \<Rightarrow>
                  [check_spatialdata_element el el_type el_type (rnds el_type el_type)]
              | _ \<Rightarrow> [])
           in (case check_types sdata rest rnds of
                 Inl e \<Rightarrow> Inl e
               | Inr results \<Rightarrow> Inr (here @ results))))"

definition load_failure :: "string \<Rightarrow> pyexn \<Rightarrow> IntegrityResult" where
  "load_failure path e =
     \<lparr>ir_path = Some path, ir_is_valid = False, ir_elements = [],
      ir_errors = [''Failed to load SpatialData object: '' @ exn_type e @ '': '' @ exn_msg e]\<rparr>"

definition default_element_types :: "string list" where
  "default_element_types = [''images'', ''labels'', ''points'', ''shapes'', ''tables'']"

text \<open>
  \<^verbatim>\<open>check_spatialdata\<close>; \<^verbatim>\<open>sd.read_zarr\<close> is the parameter \<open>read_zarr\<close>. The
  result is \<open>Inl\<close> when an exception leaves the function.
\<close>

definition check_spatialdata ::
  "(string \<Rightarrow> pyexn + container) \<Rightarrow> sdata_arg \<Rightarrow> string list option
     \<Rightarrow> (string \<Rightarrow> string \<Rightarrow> nat \<Rightarrow> nat \<Rightarrow> nat) \<Rightarrow> pyexn + IntegrityResult" where
  "check_spatialdata read_zarr sdata element_types rnds =
     (let loaded =
        (case sdata of
           Location path \<Rightarrow>
             (case read_zarr path of
                Inl e \<Rightarrow> Inl (load_failure path e)
              | Inr c \<Rightarrow> Inr (Some path, c))
         | Loaded c \<Rightarrow> Inr (None, c))
      in (case loaded of
            Inl early \<Rightarrow> Inr early
          | Inr (path, c) \<Rightarrow>
              (case check_types c
                      (case element_types of None \<Rightarrow> default_element_types | Some ts \<Rightarrow> ts) rnds of
                 Inl e \<Rightarrow> Inl e
               | Inr results \<Rightarrow>
                   Inr \<lparr>ir_path = path, ir_is_valid = list_all is_valid results,
                        ir_elements = results, ir_errors = []\<rparr>)))"

section \<open>The validation script\<close>

text \<open>
  What \<^verbatim>\<open>json.loads\<close> returns; a float is kept as its literal, and the keys of an
  object are pairwise different.
\<close>

datatype json =
  JNull | JBool bool | JNum int | JFloat string | JStr string | JList "json list"
  | JDict "(string \<times> json) list"

text \<open>
  A \<^verbatim>\<open>ValidationResult\<close>. The fields read from the parsed output hold whatever JSON
  value was there; \<open>JNull\<close> is \<^verbatim>\<open>None\<close>.
\<close>

record ValidationResult =
  dataset_name :: string
  dataset_url :: string
  spatialdata_version :: string
  success :: json
  vr_error_type :: json
  vr_error_message :: json
  vr_elements :: json
  vr_coordinate_systems :: json

text \<open>An entry of \<^verbatim>\<open>DATASETS\<close>.\<close>

record dataset =
  ds_name :: string
  ds_url :: string

text \<open>
  What \<^verbatim>\<open>subprocess.run\<close> does: the timeout expires, another exception is raised,
  or the process completes with its captured output.
\<close>

datatype run_outcome = TimeoutExpired | RunRaised pyexn | Completed string string

text \<open>The code points below 256 that \<^verbatim>\<open>str.strip()\<close> removes.\<close>

definition is_space :: "char \<Rightarrow> bool" where
  "is_space c =
     (c \<in> set [CHR 0x09, CHR 0x0A, CHR 0x0B, CHR 0x0C, CHR 0x0D, CHR 0x1C, CHR 0x1D, CHR 0x1E,
                CHR 0x1F, CHR 0x20, CHR 0x85, CHR 0xA0])"

definition strip :: "string \<Rightarrow> string" where
  "strip s = rev (dropWhile is_space (rev (dropWhile is_space s)))"

text \<open>\<^verbatim>\<open>s.split('\n')[-1]\<close>: what follows the last newline.\<close>

definition last_line :: "string \<Rightarrow> string" where
  "last_line s = rev (takeWhile (\<lambda>c. c \<noteq> CHR 0x0A) (rev s))"

text \<open>\<^verbatim>\<open>d.get(key, default)\<close> on a parsed object.\<close>

definition dict_get :: "(string \<times> json) list \<Rightarrow> string \<Rightarrow> json \<Rightarrow> json" where
  "dict_get d key dflt = (case map_of d key of None \<Rightarrow> dflt | Some v \<Rightarrow> v)"

definition type_name :: "json \<Rightarrow> string" where
  "type_name j =
     (case j of JNull \<Rightarrow> ''NoneType'' | JBool _ \<Rightarrow> ''bool'' | JNum _ \<Rightarrow> ''int''
      | JFloat _ \<Rightarrow> ''float'' | JStr _ \<Rightarrow> ''str'' | JList _ \<Rightarrow> ''list''
      | JDict _ \<Rightarrow> ''dict'')"

definition failed_result :: "dataset \<Rightarrow> string \<Rightarrow> string \<Rightarrow> string \<Rightarrow> ValidationResult" where
  "failed_result ds version etype msg =
     \<lparr>dataset_name = ds_name ds, dataset_url = ds_url ds, spatialdata_version = version,
      success = JBool False, vr_error_type = JStr etype, vr_error_message = JStr msg,
      vr_elements = JNull, vr_coordinate_systems = JNull\<rparr>"

text \<open>
  \<^verbatim>\<open>validate_with_version\<close>. The outcome of \<^verbatim>\<open>subprocess.run\<close> and the parser
  \<^verbatim>\<open>json.loads\<close> are parameters. The inner handler takes
  \<^verbatim>\<open>JSONDecodeError\<close> and \<^verbatim>\<open>IndexError\<close>; any other exception, the
  \<^verbatim>\<open>AttributeError\<close> of \<^verbatim>\<open>output.get\<close> on a value that is not an object
  included, goes to the last handler.
\<close>

definition validate_with_version ::
  "dataset \<Rightarrow> string \<Rightarrow> run_outcome \<Rightarrow> (string \<Rightarrow> pyexn + json) \<Rightarrow> ValidationResult" where
  "validate_with_version ds version outcome json_loads =
     (case outcome of
        TimeoutExpired \<Rightarrow>
          failed_result ds version ''TimeoutError'' ''Dataset loading timed out after 120 seconds''
      | RunRaised e \<Rightarrow> failed_result ds version (exn_type e) (exn_msg e)
      | Completed out err \<Rightarrow>
          (case json_loads (last_line (strip out)) of
             Inl e \<Rightarrow>
               (if exn_type e = ''JSONDecodeError'' \<or> exn_type e = ''IndexError''
                then failed_result ds version ''ParseError''
                       (''Could not parse output: '' @ out @ [CHR 0x0A] @ ''Stderr: '' @ err)
                else failed_result ds version (exn_type e) (exn_msg e))
           | Inr (JDict d) \<Rightarrow>
               \<lparr>dataset_name = ds_name ds, dataset_url = ds_url ds, spatialdata_version = version,
                success = dict_get d ''success'' (JBool False),
                vr_error_type = dict_get d ''error_type'' JNull,
                vr_error_message = dict_get d ''error_message'' JNull,
                vr_elements = dict_get d ''elements'' JNull,
                vr_coordinate_systems = dict_get d ''coordinate_systems'' JNull\<rparr>
           | Inr j \<Rightarrow>
               failed_result ds version ''AttributeError''
                 ([CHR 0x27] @ type_name j @ [CHR 0x27] @ '' object has no attribute '' @
                  [CHR 0x27] @ ''get'' @ [CHR 0x27])))"

text \<open>The list \<^verbatim>\<open>validation_tasks\<close> of \<^verbatim>\<open>main\<close>: datasets outside, versions inside.\<close>

definition validation_tasks :: "dataset list \<Rightarrow> string list \<Rightarrow> (dataset \<times> string) list" where
  "validation_tasks datasets versions = concat (map (\<lambda>d. map (\<lambda>v. (d, v)) versions) datasets)"

text \<open>
  The sequential loop of \<^verbatim>\<open>main\<close>: the \<open>i\<close>-th task, whose subprocess does
  \<open>run i\<close>, appends its result.
\<close>

fun run_sequential ::
  "(nat \<Rightarrow> run_outcome) \<Rightarrow> (string \<Rightarrow> pyexn + json) \<Rightarrow> nat \<Rightarrow> (dataset \<times> string) list
     \<Rightarrow> ValidationResult list \<Rightarrow> ValidationResult list" where
  "run_sequential run json_loads i [] results = results"
| "run_sequential run json_loads i ((ds, version) # rest) results =
     run_sequential run json_loads (Suc i) rest
       (results @ [validate_with_version ds version (run i) json_loads])"

text \<open>
  The pool: \<^verbatim>\<open>pool.imap(validate_single, validation_tasks)\<close> yields the result of
  each task in the order of the tasks, and the loop appends each one.
\<close>

definition run_pool ::
  "(nat \<Rightarrow> run_outcome) \<Rightarrow> (string \<Rightarrow> pyexn + json) \<Rightarrow> (dataset \<times> string) list
     \<Rightarrow> ValidationResult list" where
  "run_pool run json_loads tasks =
     map (\<lambda>(i, (ds, version)). validate_with_version ds version (run i) json_loads)
       (zip [0..<length tasks] tasks)"

definition main_results ::
  "bool \<Rightarrow> dataset list \<Rightarrow> string list \<Rightarrow> (nat \<Rightarrow> run_outcome) \<Rightarrow> (string \<Rightarrow> pyexn + json)
     \<Rightarrow> ValidationResult list" where
  "main_results no_parallel datasets versions run json_loads =
     (if no_parallel
      then run_sequential run json_loads 0 (validation_tasks datasets versions) []
      else run_pool run json_loads (validation_tasks datasets versions))"

definition task_id :: "ValidationResult \<Rightarrow> string \<times> string" where
  "task_id r = (dataset_name r, spatialdata_version r)"

section \<open>Concrete inputs and conditions on inputs\<close>

definition failing_read_zarr :: "string \<Rightarrow> pyexn + container" where
  "failing_read_zarr path = Inl (PyExn ''FileNotFoundError'' ''no such store'')"

definition no_rnd :: "string \<Rightarrow> string \<Rightarrow> nat \<Rightarrow> nat \<Rightarrow> nat" where
  "no_rnd el_type el_name i k = 0"



definition flaky_array :: zarr_array where
  "flaky_array =
     \<lparr>za_shape = Present [4], za_chunks = Present (Some [2]),
      za_getitem = (\<lambda>sl. if sl = [Slice 0 2]
                           then Some (PyExn ''RuntimeError'' ''Blosc: bad chunk'') else None)\<rparr>"

text \<open>
  The conditions under which no exception reaches a handler that records an error
  without an attempt: for an array, \<^verbatim>\<open>shape\<close> and \<^verbatim>\<open>chunks\<close> can be read and no
  chunk size is zero.
\<close>

definition metadata_readable :: "zarr_array \<Rightarrow> bool" where
  "metadata_readable array =
     (case getattr (za_shape array) of
        Inl _ \<Rightarrow> False
      | Inr shape \<Rightarrow>
          (case getattr (za_chunks array) of
             Inl _ \<Rightarrow> False
           | Inr None \<Rightarrow> True
           | Inr (Some chunks) \<Rightarrow>
               (case all_chunk_coords shape chunks of Inl _ \<Rightarrow> False | Inr _ \<Rightarrow> True)))"

definition item_level :: "scale_item \<Rightarrow> level" where
  "item_level scale_item = (case scale_item of Named _ d \<Rightarrow> d | Unnamed d \<Rightarrow> d)"

text \<open>
  For a resolution level: the reads of \<^verbatim>\<open>store\<close> and \<^verbatim>\<open>chunks\<close> outside the
  handlers do not raise, and the zarr array, when one is used, is readable as above.
\<close>

definition level_readable :: "level \<Rightarrow> bool" where
  "level_readable scale_data =
     (case level_zarr_array scale_data of
        Inl _ \<Rightarrow> False
      | Inr z \<Rightarrow>
          (case usable_zarr_array z of
             Inl _ \<Rightarrow> False
           | Inr (Some za) \<Rightarrow> metadata_readable za
           | Inr None \<Rightarrow> True))"

text \<open>For an element: the same along the path that \<^verbatim>\<open>check_spatialdata_element\<close> takes.\<close>

definition element_readable :: "element \<Rightarrow> string \<Rightarrow> bool" where
  "element_readable el el_type =
     (if el_type = ''images'' \<or> el_type = ''labels'' then
        (case hasattr (el_data el) of
           Inl _ \<Rightarrow> False
         | Inr False \<Rightarrow> True
         | Inr True \<Rightarrow>
             (case el_data el of
                Present data \<Rightarrow>
                  (case scale_levels data of
                     Inl _ \<Rightarrow> False
                   | Inr sl \<Rightarrow>
                       (if sl \<noteq> None \<and> sl \<noteq> Some [] then
                          list_all (\<lambda>it. level_readable (item_level it)) (the sl)
                        else
                          (case hasattr (d_chunks data) of
                             Inl _ \<Rightarrow> False
                           | Inr True \<Rightarrow> metadata_readable (data_as_array data)
                           | Inr False \<Rightarrow> True)))
              | _ \<Rightarrow> True))
      else True)"

text \<open>The number of resolution levels the element is checked by, 0 when it has none.\<close>

definition level_count :: "element \<Rightarrow> nat" where
  "level_count el =
     (case el_data el of
        Present data \<Rightarrow> (case scale_levels data of Inr (Some ls) \<Rightarrow> length ls | _ \<Rightarrow> 0)
      | _ \<Rightarrow> 0)"

definition broken_array :: zarr_array where
  "broken_array =
     \<lparr>za_shape = Raises (PyExn ''KeyError'' ''shape''), za_chunks = Present None,
      za_getitem = (\<lambda>_. None)\<rparr>"

definition shapes_element :: element where
  "shapes_element =
     \<lparr>el_data = Absent ''no attribute data'', el_compute = Absent ''no attribute compute'',
      el_head = Inl (PyExn ''AttributeError'' ''no attribute head''),
      el_len = Some (PyExn ''OSError'' ''blosc decompression failed''),
      el_shape = None, el_X = None\<rparr>"






definition two_datasets :: "dataset list" where
  "two_datasets = [\<lparr>ds_name = ''A'', ds_url = ''a.zarr''\<rparr>, \<lparr>ds_name = ''B'', ds_url = ''b.zarr''\<rparr>]"

definition second_times_out :: "nat \<Rightarrow> run_outcome" where
  "second_times_out i = (if i = 1 then TimeoutExpired else Completed ''ok'' [])"

definition loads_success :: "string \<Rightarrow> pyexn + json" where
  "loads_success s = Inr (JDict [(''success'', JBool True)])"

section \<open>Properties of the enumeration\<close>

lemma length_itertools_product:
  "length (itertools_product xss) = prod_list (map length xss)"
proof (induction xss)
  case Nil
  show ?case by simp
next
  case (Cons xs xss)
  have "length (concat (map (\<lambda>x. map ((#) x) (itertools_product xss)) xs))
          = length xs * length (itertools_product xss)"
    by (induction xs) simp_all
  with Cons show ?case by simp
qed

lemma set_itertools_product:
  "set (itertools_product xss) = {ys. list_all2 (\<lambda>y xs. y \<in> set xs) ys xss}"
proof (induction xss)
  case Nil
  show ?case by auto
next
  case (Cons xs xss)
  show ?case
    by (auto simp: Cons list_all2_Cons2)
qed

lemma chunk_indices_nonzero:
  assumes "\<forall>p \<in> set zs. snd p \<noteq> 0"
  shows "chunk_indices zs = Inr (map (\<lambda>(d, c). py_range ((d + c - 1) div c)) zs)"
  using assms by (induction zs) auto

lemma sorted_py_range: "sorted_wrt (<) (py_range n)"
  by (simp add: py_range_def sorted_wrt_map)

lemma set_py_range: "set (py_range n) = {k. 0 \<le> k \<and> k < n}"
proof (rule set_eqI)
  fix k :: int
  show "k \<in> set (py_range n) \<longleftrightarrow> k \<in> {k. 0 \<le> k \<and> k < n}"
  proof
    assume "k \<in> set (py_range n)"
    then obtain m where "m < nat n" "k = int m"
      by (auto simp: py_range_def)
    then show "k \<in> {k. 0 \<le> k \<and> k < n}" by simp
  next
    assume "k \<in> {k. 0 \<le> k \<and> k < n}"
    then have "nat k < nat n" "k = int (nat k)" by simp_all
    then show "k \<in> set (py_range n)"
      unfolding py_range_def by (metis atLeastLessThan_iff image_eqI set_map set_upt zero_le)
  qed
qed

lemma sorted_concat_cons:
  fixes xs :: "('a::linorder) list"
  assumes "sorted_wrt (<) P" "sorted_wrt (<) xs"
  shows "sorted_wrt (<) (concat (map (\<lambda>x. map ((#) x) P) xs))"
  using assms(2)
proof (induction xs)
  case Nil
  show ?case by simp
next
  case (Cons a as)
  have 1: "sorted_wrt (<) (map ((#) a) P)"
    using assms(1) by (simp add: sorted_wrt_map)
  have 2: "sorted_wrt (<) (concat (map (\<lambda>x. map ((#) x) P) as))"
    using Cons by simp
  have 3: "\<forall>u \<in> set (map ((#) a) P). \<forall>v \<in> set (concat (map (\<lambda>x. map ((#) x) P) as)). u < v"
    using Cons.prems by auto
  show ?case
    using 1 2 3 by (simp add: sorted_wrt_append)
qed

lemma sorted_itertools_product:
  fixes xss :: "('a::linorder) list list"
  assumes "\<forall>xs \<in> set xss. sorted_wrt (<) xs"
  shows "sorted_wrt (<) (itertools_product xss)"
  using assms by (induction xss) (simp_all add: sorted_concat_cons)

lemma ceil_div:
  assumes "0 < (c::int)"
  shows "(d + c - 1) div c = \<lceil>real_of_int d / real_of_int c\<rceil>"
proof -
  define q where "q = d div c"
  define r where "r = d mod c"
  have d: "d = c * q + r" and r0: "0 \<le> r" and rc: "r < c"
    using assms by (simp_all add: q_def r_def)
  have lhs: "(d + c - 1) div c = (if r = 0 then q else q + 1)"
  proof (cases "r = 0")
    case True
    have "d + c - 1 = c * q + (c - 1)" using d True by simp
    then have "(d + c - 1) div c = q"
      using assms by (intro int_div_pos_eq [where r = "c - 1"]) simp_all
    then show ?thesis using True by simp
  next
    case False
    have "d + c - 1 = c * (q + 1) + (r - 1)" using d by (simp add: algebra_simps)
    then have "(d + c - 1) div c = q + 1"
      using assms r0 rc False by (intro int_div_pos_eq [where r = "r - 1"]) simp_all
    then show ?thesis using False by simp
  qed
  have "\<lceil>real_of_int d / real_of_int c\<rceil> = - ((- d) div c)"
    by (simp add: ceiling_divide_eq_div)
  also have "\<dots> = (if r = 0 then q else q + 1)"
    using assms by (simp add: zdiv_zminus1_eq_if q_def r_def)
  finally show ?thesis using lhs by simp
qed

text \<open>
  Claim C3. For an array shape \<open>S\<close> and a chunk shape \<open>C\<close> of the same length with
  positive entries, the enumeration succeeds, the coordinates are the Cartesian product
  of the per-dimension ranges \<open>0 .. \<lceil>S[i] / C[i]\<rceil> - 1\<close>, and their number is the product
  over the dimensions of \<open>\<lceil>S[i] / C[i]\<rceil>\<close>.
\<close>

theorem enumerate_count:
  assumes len: "length S = length C"
    and pos: "\<forall>i<length S. 0 < S ! i \<and> 0 < C ! i"
  shows "\<exists>coords. all_chunk_coords S C = Inr coords
           \<and> coords = itertools_product
                 (map (\<lambda>i. py_range \<lceil>real_of_int (S ! i) / real_of_int (C ! i)\<rceil>) [0..<length S])
           \<and> int (length coords)
                 = (\<Prod>i<length S. \<lceil>real_of_int (S ! i) / real_of_int (C ! i)\<rceil>)
           \<and> set coords = {xs. length xs = length S \<and>
                 (\<forall>i<length S. 0 \<le> xs ! i \<and> xs ! i < \<lceil>real_of_int (S ! i) / real_of_int (C ! i)\<rceil>)}"
proof -
  let ?n = "\<lambda>i. \<lceil>real_of_int (S ! i) / real_of_int (C ! i)\<rceil>"
  let ?idx = "map (\<lambda>i. py_range (?n i)) [0..<length S]"
  have nz: "\<forall>p \<in> set (zip S C). snd p \<noteq> 0"
  proof
    fix p assume "p \<in> set (zip S C)"
    then obtain i where "i < length S" "p = (S ! i, C ! i)"
      using len by (auto simp: in_set_zip)
    then show "snd p \<noteq> 0" using pos by auto
  qed
  have idx: "map (\<lambda>(d, c). py_range ((d + c - 1) div c)) (zip S C) = ?idx"
  proof (rule nth_equalityI)
    show "length (map (\<lambda>(d, c). py_range ((d + c - 1) div c)) (zip S C)) = length ?idx"
      using len by simp
  next
    fix i assume "i < length (map (\<lambda>(d, c). py_range ((d + c - 1) div c)) (zip S C))"
    then have i: "i < length S" using len by simp
    then have "0 < C ! i" using pos by simp
    then show "map (\<lambda>(d, c). py_range ((d + c - 1) div c)) (zip S C) ! i = ?idx ! i"
      using i len by (simp add: ceil_div)
  qed
  have coords: "all_chunk_coords S C = Inr (itertools_product ?idx)"
    by (simp add: all_chunk_coords_def chunk_indices_nonzero [OF nz] idx)
  have npos: "0 \<le> ?n i" if "i < length S" for i
  proof -
    have "0 < S ! i" "0 < C ! i" using pos that by simp_all
    then have "0 \<le> real_of_int (S ! i) / real_of_int (C ! i)" by simp
    then show ?thesis by linarith
  qed
  have "length (itertools_product ?idx) = prod_list (map (\<lambda>i. nat (?n i)) [0..<length S])"
    by (simp add: length_itertools_product py_range_def comp_def)
  also have "\<dots> = (\<Prod>i<length S. nat (?n i))"
    using prod.distinct_set_conv_list [of "[0..<length S]" "\<lambda>i. nat (?n i)"]
    by (simp add: atLeast0LessThan)
  finally have "int (length (itertools_product ?idx)) = (\<Prod>i<length S. int (nat (?n i)))"
    by simp
  also have "\<dots> = (\<Prod>i<length S. ?n i)"
  proof (rule prod.cong)
    fix i assume "i \<in> {..<length S}"
    then have "0 \<le> ?n i" using npos by simp
    then show "int (nat (?n i)) = ?n i" by (rule nat_0_le)
  qed simp
  finally have cnt: "int (length (itertools_product ?idx)) = (\<Prod>i<length S. ?n i)" .
  have st: "set (itertools_product ?idx) = {xs. length xs = length S \<and>
                 (\<forall>i<length S. 0 \<le> xs ! i \<and> xs ! i < ?n i)}"
    by (auto simp: set_itertools_product list_all2_conv_all_nth set_py_range)
  show ?thesis using coords cnt st by blast
qed

theorem enumerate_count_witness:
  "\<exists>coords. all_chunk_coords [5, 4] [2, 3] = Inr coords \<and> int (length coords) = 6"
proof -
  have len: "length [5, 4 :: int] = length [2, 3 :: int]" by simp
  have pos: "\<forall>i<length [5, 4 :: int]. 0 < [5, 4 :: int] ! i \<and> 0 < [2, 3 :: int] ! i"
    by (simp add: less_Suc_eq)
  have two: "{..<Suc (Suc 0)} = {0, Suc 0}" by auto
  from enumerate_count [OF len pos]
  obtain coords where "all_chunk_coords [5, 4] [2, 3] = Inr coords"
    and "int (length coords)
           = (\<Prod>i<length [5, 4 :: int]. \<lceil>real_of_int ([5, 4] ! i) / real_of_int ([2, 3] ! i)\<rceil>)"
    by blast
  moreover have "(\<Prod>i<length [5, 4 :: int]. \<lceil>real_of_int ([5, 4] ! i) / real_of_int ([2, 3] ! i)\<rceil>) = 6"
    by (simp add: two)
  ultimately show ?thesis by auto
qed

section \<open>Properties of the selection\<close>

lemma mset_pool_step:
  assumes "j < length pool"
  shows "add_mset (pool ! j) (mset (butlast (pool[j := last pool]))) = mset pool"
proof -
  from assms have ne: "pool \<noteq> []" by auto
  then obtain bs l where pool: "pool = bs @ [l]"
    by (metis append_butlast_last_id)
  show ?thesis
  proof (cases "j = length bs")
    case True
    then show ?thesis using pool by simp
  next
    case False
    then have j: "j < length bs" using assms pool by simp
    then have "butlast (pool[j := last pool]) = bs[j := l]"
      using pool by (simp add: list_update_append)
    moreover have "pool ! j = bs ! j" using j pool by (simp add: nth_append)
    moreover have "add_mset (bs ! j) (mset (bs[j := l])) = add_mset l (mset bs)"
      using j by (simp add: mset_update)
    ultimately show ?thesis using pool by simp
  qed
qed

lemma mset_random_sample: "mset (random_sample pool k rnd i) \<subseteq># mset pool"
proof (induction pool k rnd i rule: random_sample.induct)
  case (1 pool rnd i)
  show ?case by simp
next
  case (2 pool k rnd i)
  show ?case
  proof (cases "pool = []")
    case True
    then show ?thesis by simp
  next
    case False
    define j where "j = rnd i mod length pool"
    have j: "j < length pool" using False by (simp add: j_def)
    have "mset (random_sample (butlast (pool[j := last pool])) k rnd (Suc i))
            \<subseteq># mset (butlast (pool[j := last pool]))"
      using 2 False by (simp add: j_def)
    then have "add_mset (pool ! j) (mset (random_sample (butlast (pool[j := last pool])) k rnd (Suc i)))
            \<subseteq># add_mset (pool ! j) (mset (butlast (pool[j := last pool])))"
      by simp
    then have "add_mset (pool ! j) (mset (random_sample (butlast (pool[j := last pool])) k rnd (Suc i)))
            \<subseteq># mset pool"
      by (simp only: mset_pool_step [OF j])
    moreover have "random_sample pool (Suc k) rnd i
            = pool ! j # random_sample (butlast (pool[j := last pool])) k rnd (Suc i)"
      using False by (simp add: j_def Let_def)
    ultimately show ?thesis by (simp only: mset.simps)
  qed
qed

lemma length_random_sample:
  "k \<le> length pool \<Longrightarrow> length (random_sample pool k rnd i) = k"
proof (induction pool k rnd i rule: random_sample.induct)
  case (1 pool rnd i)
  show ?case by simp
next
  case (2 pool k rnd i)
  then have ne: "pool \<noteq> []" by auto
  have "k \<le> length (butlast (pool[rnd i mod length pool := last pool]))"
    using 2(2) by simp
  then show ?case using 2(1) ne by (simp add: Let_def)
qed

lemma set_random_sample: "set (random_sample pool k rnd i) \<subseteq> set pool"
  using mset_random_sample [of pool k rnd i] set_mset_mono by fastforce

lemma distinct_random_sample:
  assumes "distinct pool"
  shows "distinct (random_sample pool k rnd i)"
proof -
  have "count (mset (random_sample pool k rnd i)) x \<le> 1" for x
  proof -
    have "count (mset (random_sample pool k rnd i)) x \<le> count (mset pool) x"
      using mset_random_sample [of pool k rnd i] by (simp add: mset_subset_eq_count)
    also have "\<dots> \<le> 1" using assms by (simp add: distinct_count_atmost_1)
    finally show ?thesis .
  qed
  then show ?thesis by (simp add: distinct_count_atmost_1) (metis count_mset_0_iff le_antisym not_less_eq_eq le0)
qed

lemma chunk_indices_sorted:
  "chunk_indices zs = Inr idx \<Longrightarrow> \<forall>xs \<in> set idx. sorted_wrt (<) xs"
proof (induction zs arbitrary: idx)
  case Nil
  then show ?case by simp
next
  case (Cons p zs)
  obtain d c where p: "p = (d, c)" by (cases p)
  from Cons.prems p obtain r where r: "chunk_indices zs = Inr r"
    and idx: "idx = py_range ((d + c - 1) div c) # r"
    by (auto split: if_splits sum.splits)
  show ?case using Cons.IH [OF r] idx by (simp add: sorted_py_range)
qed

lemma all_chunk_coords_sorted:
  assumes "all_chunk_coords shape chunks = Inr coords"
  shows "sorted_wrt (<) coords"
proof -
  from assms obtain idx where idx: "chunk_indices (zip shape chunks) = Inr idx"
    and coords: "coords = itertools_product idx"
    by (auto simp: all_chunk_coords_def split: sum.splits)
  show ?thesis
    unfolding coords by (rule sorted_itertools_product) (rule chunk_indices_sorted [OF idx])
qed

lemma sorted_wrt_hd_Min:
  fixes xs :: "('a::linorder) list"
  assumes "sorted_wrt (<) xs" "xs \<noteq> []"
  shows "hd xs = Min (set xs)" and "last xs = Max (set xs)"
proof -
  have s: "sorted xs" using assms(1) by (simp add: strict_sorted_iff)
  have n: "0 < length xs" using assms(2) by simp
  have "Min (set xs) = hd xs"
  proof (rule Min_eqI)
    show "finite (set xs)" by simp
    show "hd xs \<in> set xs" using assms(2) by simp
    fix y assume "y \<in> set xs"
    then obtain i where i: "i < length xs" "y = xs ! i" by (auto simp: in_set_conv_nth)
    have "xs ! 0 \<le> xs ! i" using s i(1) by (intro sorted_nth_mono) simp_all
    then show "hd xs \<le> y" using i assms(2) by (simp add: hd_conv_nth)
  qed
  then show "hd xs = Min (set xs)" by simp
  have "Max (set xs) = last xs"
  proof (rule Max_eqI)
    show "finite (set xs)" by simp
    show "last xs \<in> set xs" using assms(2) by simp
    fix y assume "y \<in> set xs"
    then obtain i where i: "i < length xs" "y = xs ! i" by (auto simp: in_set_conv_nth)
    have "xs ! i \<le> xs ! (length xs - 1)" using s i(1) n by (intro sorted_nth_mono) simp_all
    then show "y \<le> last xs" using i assms(2) by (simp add: last_conv_nth)
  qed
  then show "last xs = Max (set xs)" by simp
qed

lemma sample_selection:
  fixes rnd :: "nat \<Rightarrow> nat"
  assumes d: "distinct coords" and n: "10 < length coords"
  defines "sel \<equiv> chunks_to_check coords True None rnd"
  shows "length sel = 10" and "distinct sel" and "set sel \<subseteq> set coords"
    and "take 2 sel = [hd coords, last coords]"
proof -
  define mid where "mid = butlast (tl coords)"
  define smp where "smp = random_sample mid 8 rnd 0"
  have ne: "coords \<noteq> []" using n by auto
  have ne2: "tl coords \<noteq> []"
  proof
    assume "tl coords = []"
    then have "length (tl coords) = 0" by simp
    then have "length coords - 1 = 0" by (simp only: length_tl)
    with n show False by simp
  qed
  have "tl coords = mid @ [last (tl coords)]"
    using ne2 by (simp add: mid_def)
  moreover have "last (tl coords) = last coords"
    using ne ne2 by (metis last_tl)
  moreover have "coords = hd coords # tl coords" using ne by simp
  ultimately have coords: "coords = hd coords # mid @ [last coords]"
    by metis
  have lmid: "length mid = length coords - 2" by (simp add: mid_def)
  have sel: "sel = [hd coords, last coords] @ smp"
    using n by (simp add: sel_def chunks_to_check_def smp_def mid_def)
  have dm: "distinct (hd coords # mid @ [last coords])" using d coords by simp
  have "length smp = 8" unfolding smp_def using n lmid by (intro length_random_sample) simp
  then show "length sel = 10" by (simp add: sel)
  have sub: "set smp \<subseteq> set mid" unfolding smp_def by (rule set_random_sample)
  have ds: "distinct smp" unfolding smp_def using dm by (intro distinct_random_sample) simp
  show "distinct sel" using dm sub ds by (auto simp: sel)
  have "set sel \<subseteq> set (hd coords # mid @ [last coords])" using sub by (auto simp: sel)
  then show "set sel \<subseteq> set coords" using coords by simp
  show "take 2 sel = [hd coords, last coords]" by (simp add: sel)
qed

lemma chunks_to_check_Some:
  "chunks_to_check coords s (Some m) rnd = py_take m (chunks_to_check coords s None rnd)"
  by (simp add: chunks_to_check_def Let_def)

lemma selection_above_threshold:
  assumes coords: "all_chunk_coords shape chunks = Inr coords"
    and n: "10 < length coords"
    and mx: "max_chunks = None \<or> (\<exists>m. max_chunks = Some m \<and> 2 \<le> m)"
  shows "Min (set coords) \<in> set (chunks_to_check coords True max_chunks rnd)
       \<and> Max (set coords) \<in> set (chunks_to_check coords True max_chunks rnd)
       \<and> int (length (chunks_to_check coords True max_chunks rnd))
            = (case max_chunks of None \<Rightarrow> 10 | Some m \<Rightarrow> min 10 m)
       \<and> distinct (chunks_to_check coords True max_chunks rnd)
       \<and> set (chunks_to_check coords True max_chunks rnd) \<subseteq> set coords"
proof -
  define sel where "sel = chunks_to_check coords True None rnd"
  have srt: "sorted_wrt (<) coords" by (rule all_chunk_coords_sorted [OF coords])
  then have d: "distinct coords" by (simp add: strict_sorted_iff)
  have ne: "coords \<noteq> []" using n by auto
  note S = sample_selection [OF d n, of rnd, folded sel_def]
  have mm: "hd coords = Min (set coords)" "last coords = Max (set coords)"
    using sorted_wrt_hd_Min [OF srt ne] by simp_all
  show ?thesis
  proof (cases max_chunks)
    case None
    have "hd coords \<in> set (take 2 sel)" "last coords \<in> set (take 2 sel)"
      by (simp_all add: S(4))
    then have "hd coords \<in> set sel" "last coords \<in> set sel"
      by (auto dest: in_set_takeD)
    then show ?thesis using None S mm by (simp add: sel_def)
  next
    case (Some m)
    then have m: "2 \<le> m" using mx by simp
    define t where "t = take (nat m) sel"
    have t: "chunks_to_check coords True max_chunks rnd = t"
      using Some m by (simp add: chunks_to_check_Some py_take_def sel_def t_def)
    have "(2::nat) \<le> nat m" using m by simp
    then have "take 2 t = take 2 sel" by (simp add: t_def min_def)
    then have "hd coords \<in> set (take 2 t)" "last coords \<in> set (take 2 t)"
      by (simp_all add: S(4))
    then have a: "hd coords \<in> set t" "last coords \<in> set t"
      by (auto dest: in_set_takeD)
    have b: "int (length t) = min 10 m" using m S(1) by (simp add: t_def)
    have c: "distinct t" using S(2) by (simp add: t_def)
    have e: "set t \<subseteq> set coords" using S(3) set_take_subset [of "nat m" sel] by (auto simp: t_def)
    show ?thesis using a b c e mm Some by (simp add: t [unfolded Some])
  qed
qed

text \<open>
  Claim C9, as amended. When the coordinate set has at most 10 members (the constant
  sampling threshold) or sampling is off, and \<^verbatim>\<open>max_chunks_to_check\<close> is absent or
  at least the size of the set, the selection is the full coordinate list, unchanged and
  in order; selecting again from the result gives the same result.
\<close>

theorem full_selection:
  assumes "length coords \<le> 10 \<or> \<not> sample_chunks"
    and "max_chunks = None \<or> (\<exists>m. max_chunks = Some m \<and> int (length coords) \<le> m)"
  shows "chunks_to_check coords sample_chunks max_chunks rnd = coords
       \<and> chunks_to_check (chunks_to_check coords sample_chunks max_chunks rnd)
            sample_chunks max_chunks rnd' = chunks_to_check coords sample_chunks max_chunks rnd"
proof -
  have "chunks_to_check coords sample_chunks max_chunks r = coords" for r
    using assms by (auto simp: chunks_to_check_def py_take_def)
  then show ?thesis by simp
qed

text \<open>
  Claim C9 as stated fails when the budget is given by \<^verbatim>\<open>max_chunks_to_check\<close>:
  12 coordinates with a budget of 12 are still sampled down to 10.
\<close>

theorem full_selection_counterexample:
  "all_chunk_coords [12] [1] = Inr [[0],[1],[2],[3],[4],[5],[6],[7],[8],[9],[10],[11]]
   \<and> int (length [[0],[1],[2],[3],[4],[5],[6],[7],[8],[9],[10],[11::int]]) \<le> 12
   \<and> chunks_to_check [[0],[1],[2],[3],[4],[5],[6],[7],[8],[9],[10],[11::int]] True (Some 12) rnd_zero
        = [[0],[11],[1],[10],[9],[8],[7],[6],[5],[4]]
   \<and> chunks_to_check [[0],[1],[2],[3],[4],[5],[6],[7],[8],[9],[10],[11::int]] True (Some 12) rnd_zero
        \<noteq> [[0],[1],[2],[3],[4],[5],[6],[7],[8],[9],[10],[11]]"
proof -
  have a: "all_chunk_coords [12] [1] = Inr [[0],[1],[2],[3],[4],[5],[6],[7],[8],[9],[10],[11]]"
    by (simp add: all_chunk_coords_def py_range_def upt_rec)
  have b: "chunks_to_check [[0],[1],[2],[3],[4],[5],[6],[7],[8],[9],[10],[11::int]] True (Some 12) rnd_zero
        = [[0],[11],[1],[10],[9],[8],[7],[6],[5],[4]]"
    by code_simp
  show ?thesis unfolding b using a by simp
qed

text \<open>
  Claim C2 as stated fails when the budget is given by \<^verbatim>\<open>max_chunks_to_check\<close>
  below the threshold: 8 coordinates with a budget of 3 give the first three coordinates,
  without the last one.
\<close>

theorem sampled_selection_counterexample:
  "all_chunk_coords [8] [1] = Inr [[0],[1],[2],[3],[4],[5],[6],[7]]
   \<and> (2::int) \<le> 3 \<and> 3 < int (length [[0],[1],[2],[3],[4],[5],[6],[7::int]])
   \<and> chunks_to_check [[0],[1],[2],[3],[4],[5],[6],[7::int]] True (Some 3) rnd_zero = [[0],[1],[2]]
   \<and> last [[0],[1],[2],[3],[4],[5],[6],[7::int]]
         \<notin> set (chunks_to_check [[0],[1],[2],[3],[4],[5],[6],[7::int]] True (Some 3) rnd_zero)"
proof -
  have a: "all_chunk_coords [8] [1] = Inr [[0],[1],[2],[3],[4],[5],[6],[7]]"
    by (simp add: all_chunk_coords_def py_range_def upt_rec)
  have b: "chunks_to_check [[0],[1],[2],[3],[4],[5],[6],[7::int]] True (Some 3) rnd_zero = [[0],[1],[2]]"
    by code_simp
  show ?thesis unfolding b using a by simp
qed

theorem full_selection_witness:
  "chunks_to_check [[0],[1],[2::int]] True None rnd_zero = [[0],[1],[2]]"
proof -
  have a: "length [[0],[1],[2::int]] \<le> 10 \<or> \<not> True" by simp
  have b: "(None :: int option) = None \<or> (\<exists>m. (None :: int option) = Some m \<and> int (length [[0],[1],[2::int]]) \<le> m)"
    by simp
  from full_selection [OF a b, of rnd_zero rnd_zero] show ?thesis by blast
qed

lemma selection_below_threshold:
  assumes d: "distinct coords" and n: "length coords \<le> 10"
    and m: "2 \<le> m" "m < int (length coords)"
  shows "chunks_to_check coords True (Some m) rnd = take (nat m) coords"
    and "hd coords \<in> set (take (nat m) coords)"
    and "last coords \<notin> set (take (nat m) coords)"
    and "int (length (take (nat m) coords)) = m"
proof -
  show "chunks_to_check coords True (Some m) rnd = take (nat m) coords"
    using n m by (simp add: chunks_to_check_def py_take_def)
  have ne: "coords \<noteq> []" using m by auto
  have "hd coords = hd (take (nat m) coords)" using m by simp
  moreover have "take (nat m) coords \<noteq> []" using m ne by simp
  ultimately show "hd coords \<in> set (take (nat m) coords)" by (metis hd_in_set)
  have dn: "drop (nat m) coords \<noteq> []" using m by simp
  then have "last coords = last (drop (nat m) coords)" by simp
  then have l: "last coords \<in> set (drop (nat m) coords)" using dn by (metis last_in_set)
  have "distinct (take (nat m) coords @ drop (nat m) coords)" using d by simp
  then have "set (take (nat m) coords) \<inter> set (drop (nat m) coords) = {}"
    by (simp only: distinct_append)
  then show "last coords \<notin> set (take (nat m) coords)" using l by auto
  show "int (length (take (nat m) coords)) = m" using m by simp
qed

text \<open>
  Claim C2, as amended. In sampling mode, for a coordinate set of size \<open>n\<close> and
  \<^verbatim>\<open>max_chunks_to_check = m\<close> with \<open>2 \<le> m < n\<close>, and also for \<open>n > 10\<close> with
  \<^verbatim>\<open>max_chunks_to_check\<close> absent or at least 2: the selection contains the
  lexicographically first coordinate, has exactly \<open>min 10 m\<close> members (10 when
  \<^verbatim>\<open>max_chunks_to_check\<close> is absent), has no duplicate and is a subset of the full
  set; it contains the lexicographically last coordinate exactly when \<open>n > 10\<close>.
\<close>

theorem sampled_selection:
  assumes coords: "all_chunk_coords shape chunks = Inr coords"
    and dom: "(10 < length coords \<and> (max_chunks = None \<or> (\<exists>m. max_chunks = Some m \<and> 2 \<le> m)))
            \<or> (\<exists>m. max_chunks = Some m \<and> 2 \<le> m \<and> m < int (length coords))"
  shows "Min (set coords) \<in> set (chunks_to_check coords True max_chunks rnd)
       \<and> (Max (set coords) \<in> set (chunks_to_check coords True max_chunks rnd)
            \<longleftrightarrow> 10 < length coords)
       \<and> int (length (chunks_to_check coords True max_chunks rnd))
            = (case max_chunks of None \<Rightarrow> 10 | Some m \<Rightarrow> min 10 m)
       \<and> distinct (chunks_to_check coords True max_chunks rnd)
       \<and> set (chunks_to_check coords True max_chunks rnd) \<subseteq> set coords"
proof (cases "10 < length coords")
  case True
  from dom have "max_chunks = None \<or> (\<exists>m. max_chunks = Some m \<and> 2 \<le> m)" by blast
  from selection_above_threshold [OF coords True this, of rnd] show ?thesis
    using True by simp
next
  case False
  then have n: "length coords \<le> 10" by simp
  with dom obtain m where mx: "max_chunks = Some m" and m: "2 \<le> m" "m < int (length coords)"
    by auto
  have srt: "sorted_wrt (<) coords" by (rule all_chunk_coords_sorted [OF coords])
  then have d: "distinct coords" by (simp add: strict_sorted_iff)
  have ne: "coords \<noteq> []" using m by auto
  have mm: "hd coords = Min (set coords)" "last coords = Max (set coords)"
    using sorted_wrt_hd_Min [OF srt ne] by simp_all
  note B = selection_below_threshold [OF d n m]
  have len: "int (length (chunks_to_check coords True max_chunks rnd)) = min 10 m"
    using B(1) B(4) m n by (simp add: mx)
  have dt: "distinct (take (nat m) coords)" using d by simp
  have st: "set (take (nat m) coords) \<subseteq> set coords" by (rule set_take_subset)
  show ?thesis
    unfolding mx B(1)
    using B(2) B(3) mm False dt st len [unfolded mx B(1)] by simp
qed

theorem sampled_selection_witness:
  "Min (set [[0],[1],[2],[3],[4],[5],[6],[7],[8],[9],[10::int]])
      \<in> set (chunks_to_check [[0],[1],[2],[3],[4],[5],[6],[7],[8],[9],[10::int]] True (Some 3) rnd_zero)
   \<and> Max (set [[0],[1],[2],[3],[4],[5],[6],[7],[8],[9],[10::int]])
      \<in> set (chunks_to_check [[0],[1],[2],[3],[4],[5],[6],[7],[8],[9],[10::int]] True (Some 3) rnd_zero)
   \<and> int (length (chunks_to_check [[0],[1],[2],[3],[4],[5],[6],[7],[8],[9],[10::int]] True (Some 3) rnd_zero)) = 3"
proof -
  have c: "all_chunk_coords [11] [1] = Inr [[0],[1],[2],[3],[4],[5],[6],[7],[8],[9],[10]]"
    by (simp add: all_chunk_coords_def py_range_def upt_rec)
  have dom: "(10 < length [[0],[1],[2],[3],[4],[5],[6],[7],[8],[9],[10::int]]
               \<and> (Some (3::int) = None \<or> (\<exists>m. Some (3::int) = Some m \<and> 2 \<le> m)))
            \<or> (\<exists>m. Some (3::int) = Some m \<and> 2 \<le> m
                  \<and> m < int (length [[0],[1],[2],[3],[4],[5],[6],[7],[8],[9],[10::int]]))"
    by simp
  have k: "(case Some (3::int) of None \<Rightarrow> 10 | Some m \<Rightarrow> min 10 m) = 3" by simp
  have n: "10 < length [[0],[1],[2],[3],[4],[5],[6],[7],[8],[9],[10::int]]" by simp
  from sampled_selection [OF c dom, of rnd_zero]
  show ?thesis unfolding k using n by blast
qed

section \<open>Properties of the checks\<close>

text \<open>
  Claim C6. When \<^verbatim>\<open>check_spatialdata\<close> is given a location and loading from it
  fails, the result is returned at once: it is not valid, its error list holds exactly
  the one message of the load failure, and it has no element result.
\<close>

theorem load_failure_short_circuits:
  assumes "read_zarr path = Inl e"
  shows "\<exists>r. check_spatialdata read_zarr (Location path) element_types rnds = Inr r
           \<and> \<not> ir_is_valid r
           \<and> ir_errors r
                = [''Failed to load SpatialData object: '' @ exn_type e @ '': '' @ exn_msg e]
           \<and> length (ir_errors r) = 1
           \<and> ir_elements r = []
           \<and> ir_path r = Some path"
  using assms by (simp add: check_spatialdata_def load_failure_def)

theorem load_failure_short_circuits_witness:
  "\<exists>r. check_spatialdata failing_read_zarr (Location ''data.zarr'') None no_rnd = Inr r
        \<and> \<not> ir_is_valid r \<and> length (ir_errors r) = 1 \<and> ir_elements r = []"
proof -
  have h: "failing_read_zarr ''data.zarr'' = Inl (PyExn ''FileNotFoundError'' ''no such store'')"
    by (simp add: failing_read_zarr_def)
  from load_failure_short_circuits
         [of failing_read_zarr "''data.zarr''" "PyExn ''FileNotFoundError'' ''no such store''"
             None no_rnd, OF h]
  show ?thesis by blast
qed



lemma check_chunks_run:
  "check_chunks array shape chunks p sel st =
     \<lparr>reads = reads st @ map (\<lambda>cc. chunk_slices cc shape chunks) sel,
      checked = checked st + length sel,
      errs = errs st @
        concat (map (\<lambda>cc. case za_getitem array (chunk_slices cc shape chunks) of
                              None \<Rightarrow> [] | Some e \<Rightarrow> [chunk_read_error cc e p]) sel)\<rparr>"
proof (induction sel arbitrary: st)
  case Nil
  show ?case by simp
next
  case (Cons cc sel)
  show ?case
    by (cases "za_getitem array (chunk_slices cc shape chunks)") (simp_all add: Cons Let_def)
qed

lemma chunked_body:
  assumes "za_shape array = Present shape" "za_chunks array = Present (Some chunks)"
    "all_chunk_coords shape chunks = Inr coords"
  shows "check_zarr_array_body array sample_chunks mx p rnd =
           (check_chunks array shape chunks p (chunks_to_check coords sample_chunks mx rnd) empty_scan,
            None)"
  using assms by (simp add: check_zarr_array_body_def getattr_def)

text \<open>
  Claim C5. For an array with a chunk grid whose coordinates can be enumerated, every
  selected chunk is read, in order, whatever the earlier reads did: the number of chunks
  checked is the number of selected chunks, each failed read gives exactly one
  \<^verbatim>\<open>ChunkError\<close> at its coordinate, no exception reaches the outer handler, and
  \<^verbatim>\<open>is_valid\<close> says whether the error list is empty. The function is total: for
  every input \<^verbatim>\<open>check_zarr_array\<close> is an \<^verbatim>\<open>ElementResult\<close>, the exceptions of
  its body being values handled by \<open>outer_errors\<close>.
\<close>

theorem chunk_failures_isolated:
  assumes sh: "za_shape array = Present shape"
    and ch: "za_chunks array = Present (Some chunks)"
    and co: "all_chunk_coords shape chunks = Inr coords"
  shows "zarr_array_reads array sample_chunks mx p rnd
           = map (\<lambda>cc. chunk_slices cc shape chunks) (chunks_to_check coords sample_chunks mx rnd)
       \<and> chunks_checked (check_zarr_array array sample_chunks mx p rnd)
           = length (chunks_to_check coords sample_chunks mx rnd)
       \<and> errors (check_zarr_array array sample_chunks mx p rnd)
           = concat (map (\<lambda>cc. case za_getitem array (chunk_slices cc shape chunks) of
                                  None \<Rightarrow> [] | Some e \<Rightarrow> [chunk_read_error cc e p])
                      (chunks_to_check coords sample_chunks mx rnd))
       \<and> snd (check_zarr_array_body array sample_chunks mx p rnd) = None
       \<and> is_valid (check_zarr_array array sample_chunks mx p rnd)
           = (errors (check_zarr_array array sample_chunks mx p rnd) = [])"
  by (simp add: zarr_array_reads_def check_zarr_array_def outer_errors_def Let_def
      chunked_body [OF sh ch co] check_chunks_run empty_scan_def)

theorem chunk_failures_isolated_witness:
  "zarr_array_reads flaky_array True None None rnd_zero = [[Slice 0 2], [Slice 2 4]]
   \<and> chunks_checked (check_zarr_array flaky_array True None None rnd_zero) = 2
   \<and> errors (check_zarr_array flaky_array True None None rnd_zero)
       = [\<lparr>chunk_index = Coord [0], error_type = ''BloscDecompressionError'',
           error_message = ''Blosc: bad chunk'', array_path = None\<rparr>]"
proof -
  have sh: "za_shape flaky_array = Present [4]" by (simp add: flaky_array_def)
  have ch: "za_chunks flaky_array = Present (Some [2])" by (simp add: flaky_array_def)
  have co: "all_chunk_coords [4] [2] = Inr [[0], [1]]"
    by (simp add: all_chunk_coords_def py_range_def upt_rec)
  have sel: "chunks_to_check [[0], [1::int]] True None rnd_zero = [[0], [1]]"
    by (simp add: chunks_to_check_def)
  have sl: "chunk_slices [0] [4] [2] = [Slice 0 2]" "chunk_slices [1] [4] [2] = [Slice 2 4]"
    by (simp_all add: chunk_slices_def)
  have g: "za_getitem flaky_array [Slice 0 2] = Some (PyExn ''RuntimeError'' ''Blosc: bad chunk'')"
    "za_getitem flaky_array [Slice 2 4] = None"
    by (simp_all add: flaky_array_def)
  have cl: "classify_chunk_error (PyExn ''RuntimeError'' ''Blosc: bad chunk'') = ''BloscDecompressionError''"
    by code_simp
  from chunk_failures_isolated [OF sh ch co, of True None None rnd_zero]
  show ?thesis by (simp add: sel sl g chunk_read_error_def cl)
qed




lemma length_concat_case_le:
  "length (concat (map (\<lambda>x. case f x of None \<Rightarrow> [] | Some e \<Rightarrow> [g x e]) xs)) \<le> length xs"
  by (induction xs) (auto split: option.splits)

lemma zarr_result:
  "chunks_checked (check_zarr_array array sample_chunks mx p rnd)
     = checked (fst (check_zarr_array_body array sample_chunks mx p rnd))"
  "errors (check_zarr_array array sample_chunks mx p rnd)
     = outer_errors (check_zarr_array_body array sample_chunks mx p rnd) p"
  by (simp_all add: check_zarr_array_def Let_def)

lemma zarr_slack:
  "length (errors (check_zarr_array array sample_chunks mx p rnd))
     \<le> chunks_checked (check_zarr_array array sample_chunks mx p rnd) + 1"
proof (cases "getattr (za_shape array)")
  case (Inl e)
  then show ?thesis
    by (simp add: zarr_result check_zarr_array_body_def outer_errors_def empty_scan_def)
next
  case (Inr shape)
  note sh = this
  show ?thesis
  proof (cases "getattr (za_chunks array)")
    case (Inl e)
    then show ?thesis using sh
      by (simp add: zarr_result check_zarr_array_body_def outer_errors_def empty_scan_def)
  next
    case (Inr c)
    note ch = this
    show ?thesis
    proof (cases c)
      case None
      then show ?thesis using sh ch
        by (simp add: zarr_result check_zarr_array_body_def outer_errors_def
            probe_unchunked_def split: option.splits)
    next
      case (Some chunks)
      show ?thesis
      proof (cases "all_chunk_coords shape chunks")
        case (Inl e)
        then show ?thesis using sh ch Some
          by (simp add: zarr_result check_zarr_array_body_def outer_errors_def empty_scan_def)
      next
        case (Inr coords)
        have "length (errs (check_chunks array shape chunks p
                 (chunks_to_check coords sample_chunks mx rnd) empty_scan))
              \<le> checked (check_chunks array shape chunks p
                 (chunks_to_check coords sample_chunks mx rnd) empty_scan)"
          by (simp add: check_chunks_run empty_scan_def length_concat_case_le)
        then show ?thesis using sh ch Some Inr
          by (simp add: zarr_result check_zarr_array_body_def outer_errors_def)
      qed
    qed
  qed
qed

lemma zarr_readable:
  assumes "metadata_readable array"
  shows "length (errors (check_zarr_array array sample_chunks mx p rnd))
           \<le> chunks_checked (check_zarr_array array sample_chunks mx p rnd)"
proof -
  from assms obtain shape c where sh: "getattr (za_shape array) = Inr shape"
    and ch: "getattr (za_chunks array) = Inr c"
    by (auto simp: metadata_readable_def split: sum.splits)
  show ?thesis
  proof (cases c)
    case None
    then show ?thesis using sh ch
      by (simp add: zarr_result check_zarr_array_body_def outer_errors_def
          probe_unchunked_def split: option.splits)
  next
    case (Some chunks)
    with assms sh ch obtain coords where co: "all_chunk_coords shape chunks = Inr coords"
      by (auto simp: metadata_readable_def split: sum.splits)
    have "length (errs (check_chunks array shape chunks p
             (chunks_to_check coords sample_chunks mx rnd) empty_scan))
          \<le> checked (check_chunks array shape chunks p
             (chunks_to_check coords sample_chunks mx rnd) empty_scan)"
      by (simp add: check_chunks_run empty_scan_def length_concat_case_le)
    then show ?thesis using sh ch Some co
      by (simp add: zarr_result check_zarr_array_body_def outer_errors_def)
  qed
qed

lemma levels_slack:
  assumes "check_levels n rnds i items acc = ((cc', es'), exc)"
    and "length (snd acc) \<le> fst acc + k"
  shows "length es' + (if exc = None then 0 else 1) \<le> cc' + k + length items"
  using assms
proof (induction items arbitrary: i acc k)
  case Nil
  then show ?case by auto
next
  case (Cons it items)
  define sd where "sd = (case it of Named _ d \<Rightarrow> d | Unnamed d \<Rightarrow> d)"
  define nm where "nm = (case it of Named n _ \<Rightarrow> n | Unnamed _ \<Rightarrow> ''scale_'' @ str_of_nat i)"
  show ?case
  proof (cases "level_zarr_array sd")
    case (Inl e)
    then have "check_levels n rnds i (it # items) acc = (acc, Some e)"
      by (simp add: sd_def Let_def)
    with Cons.prems show ?thesis by auto
  next
    case (Inr z)
    note z = this
    show ?thesis
    proof (cases "usable_zarr_array z")
      case (Inl e)
      then have "check_levels n rnds i (it # items) acc = (acc, Some e)"
        using z by (simp add: sd_def Let_def)
      with Cons.prems show ?thesis by auto
    next
      case (Inr u)
      show ?thesis
      proof (cases u)
        case (Some za)
        define r where "r = check_zarr_array za True None (Some (n @ ''/'' @ nm)) (rnds i)"
        have step: "check_levels n rnds i (it # items) acc
                = check_levels n rnds (Suc i) items (fst acc + chunks_checked r, snd acc @ errors r)"
          using z Inr Some by (simp add: sd_def nm_def r_def Let_def)
        have "length (errors r) \<le> chunks_checked r + 1"
          unfolding r_def by (rule zarr_slack)
        then have b: "length (snd (fst acc + chunks_checked r, snd acc @ errors r))
                 \<le> fst (fst acc + chunks_checked r, snd acc @ errors r) + (k + 1)"
          using Cons.prems(2) by simp
        from Cons.IH [OF Cons.prems(1) [unfolded step] b] show ?thesis by simp
      next
        case None
        show ?thesis
        proof (cases "level_probe sd")
          case None
          have step: "check_levels n rnds i (it # items) acc
                  = check_levels n rnds (Suc i) items (fst acc + 1, snd acc)"
            using z Inr \<open>u = None\<close> None by (simp add: sd_def Let_def)
          have b: "length (snd (fst acc + 1, snd acc)) \<le> fst (fst acc + 1, snd acc) + k"
            using Cons.prems(2) by simp
          from Cons.IH [OF Cons.prems(1) [unfolded step] b] show ?thesis by simp
        next
          case (Some e)
          have step: "check_levels n rnds i (it # items) acc
                  = check_levels n rnds (Suc i) items
                      (fst acc + 1, snd acc @ [level_error nm e (n @ ''/'' @ nm)])"
            using z Inr \<open>u = None\<close> Some by (simp add: sd_def nm_def Let_def)
          have b: "length (snd (fst acc + 1, snd acc @ [level_error nm e (n @ ''/'' @ nm)]))
                   \<le> fst (fst acc + 1, snd acc @ [level_error nm e (n @ ''/'' @ nm)]) + k"
            using Cons.prems(2) by simp
          from Cons.IH [OF Cons.prems(1) [unfolded step] b] show ?thesis by simp
        qed
      qed
    qed
  qed
qed

lemma levels_readable:
  assumes "check_levels n rnds i items acc = ((cc', es'), exc)"
    and "length (snd acc) \<le> fst acc"
    and "list_all (\<lambda>it. level_readable (item_level it)) items"
  shows "exc = None \<and> length es' \<le> cc'"
  using assms
proof (induction items arbitrary: i acc)
  case Nil
  then show ?case by auto
next
  case (Cons it items)
  define sd where "sd = (case it of Named _ d \<Rightarrow> d | Unnamed d \<Rightarrow> d)"
  define nm where "nm = (case it of Named n _ \<Rightarrow> n | Unnamed _ \<Rightarrow> ''scale_'' @ str_of_nat i)"
  from Cons.prems(3) have rd: "level_readable sd"
    and rest: "list_all (\<lambda>it. level_readable (item_level it)) items"
    by (simp_all add: sd_def item_level_def)
  from rd obtain z u where z: "level_zarr_array sd = Inr z" and u: "usable_zarr_array z = Inr u"
    by (auto simp: level_readable_def split: sum.splits)
  show ?case
  proof (cases u)
    case (Some za)
    then have mr: "metadata_readable za" using rd z u by (simp add: level_readable_def)
    define r where "r = check_zarr_array za True None (Some (n @ ''/'' @ nm)) (rnds i)"
    have step: "check_levels n rnds i (it # items) acc
            = check_levels n rnds (Suc i) items (fst acc + chunks_checked r, snd acc @ errors r)"
      using z u Some by (simp add: sd_def nm_def r_def Let_def)
    have "length (errors r) \<le> chunks_checked r"
      unfolding r_def by (rule zarr_readable [OF mr])
    then have b: "length (snd (fst acc + chunks_checked r, snd acc @ errors r))
             \<le> fst (fst acc + chunks_checked r, snd acc @ errors r)"
      using Cons.prems(2) by simp
    from Cons.IH [OF Cons.prems(1) [unfolded step] b rest] show ?thesis .
  next
    case None
    show ?thesis
    proof (cases "level_probe sd")
      case None
      have step: "check_levels n rnds i (it # items) acc
              = check_levels n rnds (Suc i) items (fst acc + 1, snd acc)"
        using z u \<open>u = None\<close> None by (simp add: sd_def Let_def)
      have b: "length (snd (fst acc + 1, snd acc)) \<le> fst (fst acc + 1, snd acc)"
        using Cons.prems(2) by simp
      from Cons.IH [OF Cons.prems(1) [unfolded step] b rest] show ?thesis .
    next
      case (Some e)
      have step: "check_levels n rnds i (it # items) acc
              = check_levels n rnds (Suc i) items
                  (fst acc + 1, snd acc @ [level_error nm e (n @ ''/'' @ nm)])"
        using z u \<open>u = None\<close> Some by (simp add: sd_def nm_def Let_def)
      have b: "length (snd (fst acc + 1, snd acc @ [level_error nm e (n @ ''/'' @ nm)]))
               \<le> fst (fst acc + 1, snd acc @ [level_error nm e (n @ ''/'' @ nm)])"
        using Cons.prems(2) by simp
      from Cons.IH [OF Cons.prems(1) [unfolded step] b rest] show ?thesis .
    qed
  qed
qed

lemma hasattr_True: "hasattr a = Inr True \<Longrightarrow> \<exists>v. a = Present v"
  by (cases a) (simp_all add: hasattr_def)

lemma image_slack:
  assumes r: "check_image_element el n rnds = ((cc, es), w, exc)"
  shows "length es + (if exc = None then 0 else 1) \<le> cc + max 1 (level_count el)"
proof (cases "hasattr (el_data el)")
  case (Inl e)
  with r show ?thesis by (auto simp: check_image_element_def)
next
  case (Inr b)
  show ?thesis
  proof (cases b)
    case False
    with r Inr show ?thesis by (auto simp: check_image_element_def)
  next
    case True
    with Inr obtain data where d: "el_data el = Present data"
      by (auto dest: hasattr_True)
    show ?thesis
    proof (cases "scale_levels data")
      case (Inl e)
      with r Inr True d show ?thesis by (auto simp: check_image_element_def)
    next
      case (Inr sl)
      note sl = this
      show ?thesis
      proof (cases "sl \<noteq> None \<and> sl \<noteq> Some []")
        case True
        then obtain ls where ls: "sl = Some ls" by auto
        have lc: "level_count el = length ls" using d sl ls by (simp add: level_count_def)
        have "check_image_element el n rnds
                = (fst (check_levels n rnds 0 ls (0, [])), None, snd (check_levels n rnds 0 ls (0, [])))"
          using \<open>hasattr (el_data el) = Inr b\<close> \<open>b\<close> d sl ls True
          by (simp add: check_image_element_def Let_def)
        with r have cl: "check_levels n rnds 0 ls (0, []) = ((cc, es), exc)" by (simp add: prod_eq_iff)
        from levels_slack [OF cl, of 0] have "length es + (if exc = None then 0 else 1) \<le> cc + length ls"
          by simp
        then show ?thesis using lc by simp
      next
        case False
        show ?thesis
        proof (cases "hasattr (d_chunks data)")
          case (Inl e)
          with r \<open>hasattr (el_data el) = Inr b\<close> \<open>b\<close> d sl False show ?thesis
            by (auto simp: check_image_element_def)
        next
          case (Inr c)
          show ?thesis
          proof (cases c)
            case True
            define res where "res = check_zarr_array (data_as_array data) True None (Some n) (rnds 0)"
            have "check_image_element el n rnds = ((chunks_checked res, errors res), None, None)"
              using \<open>hasattr (el_data el) = Inr b\<close> \<open>b\<close> d sl False Inr True
              by (auto simp: check_image_element_def res_def Let_def)
            with r have "cc = chunks_checked res" "es = errors res" "exc = None" by simp_all
            moreover have "length (errors res) \<le> chunks_checked res + 1"
              unfolding res_def by (rule zarr_slack)
            ultimately show ?thesis by simp
          next
            case False
            with r \<open>hasattr (el_data el) = Inr b\<close> \<open>b\<close> d sl \<open>\<not> (sl \<noteq> None \<and> sl \<noteq> Some [])\<close> Inr
            show ?thesis
              by (cases "direct_probe data") (auto simp: check_image_element_def)
          qed
        qed
      qed
    qed
  qed
qed

lemma image_readable:
  assumes r: "check_image_element el n rnds = ((cc, es), w, exc)"
    and ty: "el_type = ''images'' \<or> el_type = ''labels''"
    and rd: "element_readable el el_type"
  shows "exc = None \<and> length es \<le> cc"
proof -
  from rd ty obtain b where hb: "hasattr (el_data el) = Inr b"
    by (auto simp: element_readable_def split: sum.splits)
  show ?thesis
  proof (cases b)
    case False
    with r hb show ?thesis by (auto simp: check_image_element_def)
  next
    case True
    with hb obtain data where d: "el_data el = Present data"
      by (auto dest: hasattr_True)
    from rd ty hb True d obtain sl where sl: "scale_levels data = Inr sl"
      by (auto simp: element_readable_def split: sum.splits)
    show ?thesis
    proof (cases "sl \<noteq> None \<and> sl \<noteq> Some []")
      case True
      then obtain ls where ls: "sl = Some ls" by auto
      have la: "list_all (\<lambda>it. level_readable (item_level it)) ls"
        using rd ty hb \<open>b\<close> d sl ls True by (simp add: element_readable_def)
      have "check_image_element el n rnds
              = (fst (check_levels n rnds 0 ls (0, [])), None, snd (check_levels n rnds 0 ls (0, [])))"
        using hb \<open>b\<close> d sl ls True by (simp add: check_image_element_def Let_def)
      with r have cl: "check_levels n rnds 0 ls (0, []) = ((cc, es), exc)" by (simp add: prod_eq_iff)
      from levels_readable [OF cl _ la] show ?thesis by simp
    next
      case False
      from rd ty hb \<open>b\<close> d sl False obtain c where c: "hasattr (d_chunks data) = Inr c"
        by (auto simp: element_readable_def split: sum.splits)
      show ?thesis
      proof (cases c)
        case True
        have mr: "metadata_readable (data_as_array data)"
          using rd ty hb \<open>b\<close> d sl False c True by (auto simp: element_readable_def)
        define res where "res = check_zarr_array (data_as_array data) True None (Some n) (rnds 0)"
        have "check_image_element el n rnds = ((chunks_checked res, errors res), None, None)"
          using hb \<open>b\<close> d sl False c True
          by (auto simp: check_image_element_def res_def Let_def)
        with r have "cc = chunks_checked res" "es = errors res" "exc = None" by simp_all
        moreover have "length (errors res) \<le> chunks_checked res"
          unfolding res_def by (rule zarr_readable [OF mr])
        ultimately show ?thesis by simp
      next
        case False
        with r hb \<open>b\<close> d sl \<open>\<not> (sl \<noteq> None \<and> sl \<noteq> Some [])\<close> c
        show ?thesis
          by (cases "direct_probe data") (auto simp: check_image_element_def)
      qed
    qed
  qed
qed

lemma element_result:
  "chunks_checked (check_spatialdata_element el el_type el_name rnds)
     = fst (fst (check_spatialdata_element_body el el_type el_name rnds))"
  "errors (check_spatialdata_element el el_type el_name rnds)
     = snd (fst (check_spatialdata_element_body el el_type el_name rnds)) @
       (case snd (snd (check_spatialdata_element_body el el_type el_name rnds)) of
          None \<Rightarrow> [] | Some e \<Rightarrow> [metadata_error e (Some el_name)])"
  by (simp_all add: check_spatialdata_element_def Let_def split: option.splits)

lemma body_slack:
  assumes "check_spatialdata_element_body el el_type el_name rnds = ((cc, es), w, exc)"
  shows "length es + (if exc = None then 0 else 1) \<le> cc + max 1 (level_count el)"
proof (cases "el_type = ''images'' \<or> el_type = ''labels''")
  case True
  with assms have "check_image_element el el_name rnds = ((cc, es), w, exc)"
    by (simp add: check_spatialdata_element_body_def)
  then show ?thesis by (rule image_slack)
next
  case False
  with assms show ?thesis
    by (auto simp: check_spatialdata_element_body_def probe_tally_def
        split: if_splits option.splits)
qed

lemma body_readable:
  assumes "check_spatialdata_element_body el el_type el_name rnds = ((cc, es), w, exc)"
    and "element_readable el el_type"
  shows "exc = None \<and> length es \<le> cc"
proof (cases "el_type = ''images'' \<or> el_type = ''labels''")
  case True
  with assms have "check_image_element el el_name rnds = ((cc, es), w, exc)"
    by (simp add: check_spatialdata_element_body_def)
  then show ?thesis using True assms(2) by (rule image_readable)
next
  case False
  with assms(1) show ?thesis
    by (auto simp: check_spatialdata_element_body_def probe_tally_def
        split: if_splits option.splits)
qed

text \<open>
  Claim C1, as amended. An error recorded by a handler of a read counts as a chunk
  checked; an error recorded by the handler for failures outside any read (the metadata
  handler of \<^verbatim>\<open>check_zarr_array\<close>, the outer handler of
  \<^verbatim>\<open>check_spatialdata_element\<close>) does not. So the number of errors is at most
  \<^verbatim>\<open>chunks_checked\<close> plus 1 for \<^verbatim>\<open>check_zarr_array\<close>, and at most
  \<^verbatim>\<open>chunks_checked\<close> plus the number of resolution levels (or plus 1 when there is
  none) for \<^verbatim>\<open>check_spatialdata_element\<close>; and it is at most
  \<^verbatim>\<open>chunks_checked\<close> whenever the metadata can be read, which is always the case for
  points, shapes and tables elements.
\<close>

theorem attempts_cover_errors:
  "length (errors (check_zarr_array array sample_chunks mx p rnd))
     \<le> chunks_checked (check_zarr_array array sample_chunks mx p rnd) + 1
   \<and> (metadata_readable array \<longrightarrow>
        length (errors (check_zarr_array array sample_chunks mx p rnd))
          \<le> chunks_checked (check_zarr_array array sample_chunks mx p rnd))
   \<and> length (errors (check_spatialdata_element el el_type el_name rnds))
        \<le> chunks_checked (check_spatialdata_element el el_type el_name rnds)
            + max 1 (level_count el)
   \<and> (element_readable el el_type \<longrightarrow>
        length (errors (check_spatialdata_element el el_type el_name rnds))
          \<le> chunks_checked (check_spatialdata_element el el_type el_name rnds))"
proof -
  obtain cc es w exc where b: "check_spatialdata_element_body el el_type el_name rnds = ((cc, es), w, exc)"
    by (metis prod.exhaust)
  have 3: "length (errors (check_spatialdata_element el el_type el_name rnds))
        \<le> chunks_checked (check_spatialdata_element el el_type el_name rnds)
            + max 1 (level_count el)"
    using body_slack [OF b] by (cases exc) (simp_all add: element_result b)
  have 4: "length (errors (check_spatialdata_element el el_type el_name rnds))
          \<le> chunks_checked (check_spatialdata_element el el_type el_name rnds)"
    if "element_readable el el_type"
    using body_readable [OF b that] by (simp add: element_result b)
  show ?thesis
    using zarr_slack [of array sample_chunks mx p rnd]
      zarr_readable [of array sample_chunks mx p rnd] 3 4 by blast
qed

theorem attempts_cover_errors_witness:
  "length (errors (check_zarr_array flaky_array True None None rnd_zero))
     \<le> chunks_checked (check_zarr_array flaky_array True None None rnd_zero)
   \<and> length (errors (check_spatialdata_element shapes_element ''shapes'' ''cells''
                       (no_rnd ''shapes'' ''cells'')))
     \<le> chunks_checked (check_spatialdata_element shapes_element ''shapes'' ''cells''
                          (no_rnd ''shapes'' ''cells''))"
proof -
  have m: "metadata_readable flaky_array"
    by (simp add: metadata_readable_def flaky_array_def getattr_def all_chunk_coords_def)
  have e: "element_readable shapes_element ''shapes''"
    by (simp add: element_readable_def)
  from attempts_cover_errors
         [of flaky_array True None None rnd_zero shapes_element "''shapes''" "''cells''"
             "no_rnd ''shapes'' ''cells''"]
  show ?thesis using m e by blast
qed

text \<open>
  Claim C1 as stated fails when reading the shape of the array raises: one error, no
  chunk checked.
\<close>

theorem attempts_cover_errors_counterexample:
  "chunks_checked (check_zarr_array broken_array True None None rnd_zero) = 0
   \<and> errors (check_zarr_array broken_array True None None rnd_zero)
       = [\<lparr>chunk_index = Coord [], error_type = ''KeyError'', error_message = ''shape'',
           array_path = None\<rparr>]
   \<and> \<not> chunks_checked (check_zarr_array broken_array True None None rnd_zero)
         \<ge> length (errors (check_zarr_array broken_array True None None rnd_zero))"
  by (simp add: zarr_result check_zarr_array_body_def getattr_def broken_array_def
      outer_errors_def empty_scan_def metadata_error_def)







lemma validate_identity:
  "dataset_name (validate_with_version ds version outcome json_loads) = ds_name ds"
  "dataset_url (validate_with_version ds version outcome json_loads) = ds_url ds"
  "spatialdata_version (validate_with_version ds version outcome json_loads) = version"
  by (auto simp: validate_with_version_def failed_result_def
      split: run_outcome.splits sum.splits json.splits)

lemma run_sequential_eq:
  "run_sequential run json_loads i tasks results =
     results @ map (\<lambda>(k, (ds, version)). validate_with_version ds version (run k) json_loads)
                 (zip [i..<i + length tasks] tasks)"
proof (induction tasks arbitrary: i results)
  case Nil
  show ?case by simp
next
  case (Cons t tasks)
  obtain ds version where t: "t = (ds, version)" by (cases t)
  have "[i..<i + length (t # tasks)] = i # [Suc i..<Suc i + length tasks]"
    by (simp add: upt_rec)
  then show ?case by (simp add: t Cons)
qed

lemma main_results_eq:
  "main_results no_parallel datasets versions run json_loads =
     map (\<lambda>(k, (ds, version)). validate_with_version ds version (run k) json_loads)
       (zip [0..<length (validation_tasks datasets versions)] (validation_tasks datasets versions))"
  by (simp add: main_results_def run_pool_def run_sequential_eq)

lemma main_results_nth:
  assumes "i < length (validation_tasks datasets versions)"
  shows "main_results no_parallel datasets versions run json_loads ! i
           = validate_with_version (fst (validation_tasks datasets versions ! i))
               (snd (validation_tasks datasets versions ! i)) (run i) json_loads"
  using assms by (simp add: main_results_eq case_prod_beta)

text \<open>
  Claim C7. \<^verbatim>\<open>validate_with_version\<close> returns a result in every branch, and
  \<^verbatim>\<open>main\<close> collects exactly one result per task, in both modes: the results are
  as many as the tasks, the \<open>i\<close>-th result carries the dataset name and version of
  the \<open>i\<close>-th task and depends on that task's subprocess only, a timeout, an exception
  or an unparseable output of that subprocess gives a failed result for that task, and
  pairwise different task identities give pairwise different result identities.
\<close>

theorem one_outcome_per_task:
  "length (main_results no_parallel datasets versions run json_loads)
     = length (validation_tasks datasets versions)
   \<and> map task_id (main_results no_parallel datasets versions run json_loads)
     = map (\<lambda>(ds, version). (ds_name ds, version)) (validation_tasks datasets versions)
   \<and> (\<forall>i < length (validation_tasks datasets versions).
        main_results no_parallel datasets versions run json_loads ! i
          = validate_with_version (fst (validation_tasks datasets versions ! i))
              (snd (validation_tasks datasets versions ! i)) (run i) json_loads)
   \<and> (\<forall>i < length (validation_tasks datasets versions).
        run i = TimeoutExpired \<longrightarrow>
          success (main_results no_parallel datasets versions run json_loads ! i) = JBool False
          \<and> vr_error_type (main_results no_parallel datasets versions run json_loads ! i)
              = JStr ''TimeoutError'')
   \<and> (\<forall>i < length (validation_tasks datasets versions). \<forall>e.
        run i = RunRaised e \<longrightarrow>
          success (main_results no_parallel datasets versions run json_loads ! i) = JBool False
          \<and> vr_error_type (main_results no_parallel datasets versions run json_loads ! i)
              = JStr (exn_type e))
   \<and> (\<forall>i < length (validation_tasks datasets versions). \<forall>out err e.
        run i = Completed out err \<and> json_loads (last_line (strip out)) = Inl e \<longrightarrow>
          success (main_results no_parallel datasets versions run json_loads ! i) = JBool False)
   \<and> (distinct (map (\<lambda>(ds, version). (ds_name ds, version)) (validation_tasks datasets versions))
        \<longrightarrow> distinct (map task_id (main_results no_parallel datasets versions run json_loads)))"
proof -
  let ?tasks = "validation_tasks datasets versions"
  let ?res = "main_results no_parallel datasets versions run json_loads"
  have len: "length ?res = length ?tasks" by (simp add: main_results_eq)
  have ids: "map task_id ?res = map (\<lambda>(ds, version). (ds_name ds, version)) ?tasks"
  proof (rule nth_equalityI)
    show "length (map task_id ?res) = length (map (\<lambda>(ds, version). (ds_name ds, version)) ?tasks)"
      using len by simp
  next
    fix i assume "i < length (map task_id ?res)"
    then have i: "i < length ?tasks" using len by simp
    then show "map task_id ?res ! i = map (\<lambda>(ds, version). (ds_name ds, version)) ?tasks ! i"
      using len by (simp add: main_results_nth task_id_def validate_identity case_prod_beta)
  qed
  have nth: "\<forall>i < length ?tasks.
        ?res ! i = validate_with_version (fst (?tasks ! i)) (snd (?tasks ! i)) (run i) json_loads"
    by (simp add: main_results_nth)
  have tmo: "\<forall>i < length ?tasks. run i = TimeoutExpired \<longrightarrow>
          success (?res ! i) = JBool False \<and> vr_error_type (?res ! i) = JStr ''TimeoutError''"
    by (simp add: main_results_nth validate_with_version_def failed_result_def)
  have exn: "\<forall>i < length ?tasks. \<forall>e. run i = RunRaised e \<longrightarrow>
          success (?res ! i) = JBool False \<and> vr_error_type (?res ! i) = JStr (exn_type e)"
    by (simp add: main_results_nth validate_with_version_def failed_result_def)
  have prs: "\<forall>i < length ?tasks. \<forall>out err e.
        run i = Completed out err \<and> json_loads (last_line (strip out)) = Inl e \<longrightarrow>
          success (?res ! i) = JBool False"
    by (simp add: main_results_nth validate_with_version_def failed_result_def)
  have dst: "distinct (map (\<lambda>(ds, version). (ds_name ds, version)) ?tasks)
        \<longrightarrow> distinct (map task_id ?res)"
    by (simp only: ids) simp
  show ?thesis using len ids nth tmo exn prs dst by blast
qed

theorem one_outcome_per_task_witness:
  "map task_id (main_results False two_datasets [''0.5.0'', ''0.6.1''] second_times_out loads_success)
     = [(''A'', ''0.5.0''), (''A'', ''0.6.1''), (''B'', ''0.5.0''), (''B'', ''0.6.1'')]
   \<and> vr_error_type (main_results False two_datasets [''0.5.0'', ''0.6.1''] second_times_out
                      loads_success ! 1) = JStr ''TimeoutError''
   \<and> distinct (map task_id (main_results False two_datasets [''0.5.0'', ''0.6.1''] second_times_out
                               loads_success))"
proof -
  have t: "validation_tasks two_datasets [''0.5.0'', ''0.6.1'']
             = [(\<lparr>ds_name = ''A'', ds_url = ''a.zarr''\<rparr>, ''0.5.0''),
                (\<lparr>ds_name = ''A'', ds_url = ''a.zarr''\<rparr>, ''0.6.1''),
                (\<lparr>ds_name = ''B'', ds_url = ''b.zarr''\<rparr>, ''0.5.0''),
                (\<lparr>ds_name = ''B'', ds_url = ''b.zarr''\<rparr>, ''0.6.1'')]"
    by (simp add: validation_tasks_def two_datasets_def)
  have i: "(1::nat) < length (validation_tasks two_datasets [''0.5.0'', ''0.6.1''])"
    by (simp add: t)
  have r: "second_times_out 1 = TimeoutExpired" by (simp add: second_times_out_def)
  have d: "distinct (map (\<lambda>(ds, version). (ds_name ds, version))
             (validation_tasks two_datasets [''0.5.0'', ''0.6.1'']))"
    by (simp add: t)
  from one_outcome_per_task [of False two_datasets "[''0.5.0'', ''0.6.1'']" second_times_out loads_success]
  have a: "map task_id (main_results False two_datasets [''0.5.0'', ''0.6.1''] second_times_out loads_success)
             = map (\<lambda>(ds, version). (ds_name ds, version))
                 (validation_tasks two_datasets [''0.5.0'', ''0.6.1''])"
    and b: "vr_error_type (main_results False two_datasets [''0.5.0'', ''0.6.1''] second_times_out
                      loads_success ! 1) = JStr ''TimeoutError''"
    and c: "distinct (map task_id (main_results False two_datasets [''0.5.0'', ''0.6.1''] second_times_out
                               loads_success))"
    using i r d by blast+
  show ?thesis using a b c by (simp add: t)
qed

end
